theory Spec2Isabelle
  imports Main
begin

section \<open>Image references: the \<open>name\<close> package the controller calls\<close>

text \<open>
  The controller in \<open>controllers/image_clone_controller.go\<close> handles image references
  through \<open>github.com/google/go-containerregistry/pkg/name\<close>: \<open>name.ParseReference\<close>,
  \<open>name.NewTag\<close>, the types \<open>name.Registry\<close>, \<open>name.Repository\<close>, \<open>name.Tag\<close>,
  \<open>name.Digest\<close> and their methods. That package is a dependency of the repository, so
  the definitions of this section follow the package (its non-strict default options, which
  are the only ones the controller uses), function by function and under its own names,
  as the package stood when the controller was written: a tag is 1 to 128 characters, a
  repository 2 to 255, a digest exactly 71 (the length of \<open>sha256:\<close> and 64
  hexadecimal digits), each from its own alphabet.

  One function of the package is not modelled but taken as a parameter \<open>chk\<close>:
  \<open>checkRegistry\<close>, which asks Go's \<open>net/url\<close> whether a string is a URI authority
  (\<open>url.Parse("//" + name)\<close> succeeds with \<open>Host == name\<close>). \<open>chk name\<close> stands for
  "\<open>checkRegistry(name)\<close> returns no error".
\<close>

type_synonym authority_check = "string \<Rightarrow> bool"

datatype name_error = ErrBadName

definition DefaultRegistry :: string where
  "DefaultRegistry = ''index.docker.io''"

definition defaultRegistryAlias :: string where
  "defaultRegistryAlias = ''docker.io''"

definition defaultNamespace :: string where
  "defaultNamespace = ''library''"

definition defaultTag :: string where
  "defaultTag = ''latest''"

definition tagChars :: string where
  "tagChars = ''abcdefghijklmnopqrstuvwxyzABCDEFGHIJKLMNOPQRSTUVWXYZ0123456789_-.''"

definition repositoryChars :: string where
  "repositoryChars = ''abcdefghijklmnopqrstuvwxyz0123456789_-./''"

definition digestChars :: string where
  "digestChars = ''sh:0123456789abcdef''"

text \<open>
  \<open>checkElement\<close> accepts an element whose rune count lies between the two bounds and
  whose runes all belong to the allowed set. Every allowed rune is one byte, so for an
  accepted element runes and bytes count alike, and an element with any other byte is
  rejected whatever its length: acceptance is as below. \<open>True\<close> is Go's \<open>nil\<close> error.
  (The Go function has one more argument, the kind of element, which only labels the
  error message.)
\<close>

definition checkElement :: "string \<Rightarrow> nat \<Rightarrow> nat \<Rightarrow> string \<Rightarrow> bool" where
  "checkElement allowedRunes minRunes maxRunes element \<longleftrightarrow>
     minRunes \<le> length element \<and> length element \<le> maxRunes \<and>
     list_all (\<lambda>r. r \<in> set allowedRunes) element"

definition checkTag :: "string \<Rightarrow> bool" where
  "checkTag name = checkElement tagChars 1 128 name"

definition checkRepository :: "string \<Rightarrow> bool" where
  "checkRepository repository = checkElement repositoryChars 2 255 repository"

definition checkDigest :: "string \<Rightarrow> bool" where
  "checkDigest name = checkElement digestChars (7 + 64) (7 + 64) name"

text \<open>Go's \<open>strings.Split\<close>, \<open>strings.Join\<close> and \<open>strings.SplitN(s, sep, 2)\<close> for a
  one-byte separator.\<close>

fun Split :: "char \<Rightarrow> string \<Rightarrow> string list" where
  "Split sep [] = [[]]"
| "Split sep (c # s) =
     (if c = sep then [] # Split sep s
      else (case Split sep s of [] \<Rightarrow> [[c]] | p # ps \<Rightarrow> (c # p) # ps))"

fun Join :: "char \<Rightarrow> string list \<Rightarrow> string" where
  "Join sep [] = []"
| "Join sep [p] = p"
| "Join sep (p # q # ps) = p @ sep # Join sep (q # ps)"

definition SplitN2 :: "char \<Rightarrow> string \<Rightarrow> string list" where
  "SplitN2 sep s =
     (if sep \<in> set s
      then [takeWhile (\<lambda>c. c \<noteq> sep) s, tl (dropWhile (\<lambda>c. c \<noteq> sep) s)]
      else [s])"

text \<open>
  The structs of the package, with their (unexported) fields. \<open>Repository\<close> embeds a
  \<open>Registry\<close>, \<open>Tag\<close> and \<open>Digest\<close> embed a \<open>Repository\<close> and keep the string they
  were parsed from. Of \<open>Registry\<close> the flag \<open>insecure\<close> is left out: only the option
  \<open>name.Insecure\<close> sets it, the controller passes no option, and the backup registry is
  configured as an authority (\<open>host[:port]\<close>) alone.
\<close>

record Registry =
  registry :: string

record Repository =
  Registry :: Registry
  repository :: string

record Tag =
  tag_Repository :: Repository
  tag :: string
  tag_original :: string

record Digest =
  digest_Repository :: Repository
  digest :: string
  digest_original :: string

text \<open>\<open>name.Reference\<close> is the interface that \<open>name.Tag\<close> and \<open>name.Digest\<close> implement.\<close>

datatype Reference = TagReference Tag | DigestReference Digest

definition RegistryStr :: "Registry \<Rightarrow> string" where
  "RegistryStr r = registry r"

definition Registry_Name :: "Registry \<Rightarrow> string" where
  "Registry_Name r = RegistryStr r"

definition hasImplicitNamespace :: "string \<Rightarrow> Registry \<Rightarrow> bool" where
  "hasImplicitNamespace repo reg \<longleftrightarrow>
     CHR ''/'' \<notin> set repo \<and> RegistryStr reg = DefaultRegistry"

definition RepositoryStr :: "Repository \<Rightarrow> string" where
  "RepositoryStr r =
     (if hasImplicitNamespace (repository r) (Registry r)
      then defaultNamespace @ ''/'' @ repository r
      else repository r)"

definition Repository_Name :: "Repository \<Rightarrow> string" where
  "Repository_Name r =
     (let regName = Registry_Name (Registry r)
      in if regName \<noteq> [] then regName @ ''/'' @ RepositoryStr r else RepositoryStr r)"

definition TagStr :: "Tag \<Rightarrow> string" where
  "TagStr t = tag t"

definition Tag_Name :: "Tag \<Rightarrow> string" where
  "Tag_Name t = Repository_Name (tag_Repository t) @ '':'' @ TagStr t"

definition DigestStr :: "Digest \<Rightarrow> string" where
  "DigestStr d = digest d"

definition Digest_Name :: "Digest \<Rightarrow> string" where
  "Digest_Name d = Repository_Name (digest_Repository d) @ ''@'' @ DigestStr d"

fun Reference_Context :: "Reference \<Rightarrow> Repository" where
  "Reference_Context (TagReference t) = tag_Repository t"
| "Reference_Context (DigestReference d) = digest_Repository d"

fun Reference_Identifier :: "Reference \<Rightarrow> string" where
  "Reference_Identifier (TagReference t) = TagStr t"
| "Reference_Identifier (DigestReference d) = DigestStr d"

fun Reference_Name :: "Reference \<Rightarrow> string" where
  "Reference_Name (TagReference t) = Tag_Name t"
| "Reference_Name (DigestReference d) = Digest_Name d"

definition NewRegistry :: "authority_check \<Rightarrow> string \<Rightarrow> name_error + Registry" where
  "NewRegistry chk name =
     (if \<not> chk name then Inl ErrBadName
      else let name1 = (if name = [] then DefaultRegistry else name);
               name2 = (if name1 = defaultRegistryAlias then DefaultRegistry else name1)
           in Inr \<lparr>registry = name2\<rparr>)"

definition NewRepository :: "authority_check \<Rightarrow> string \<Rightarrow> name_error + Repository" where
  "NewRepository chk name =
     (if length name = 0 then Inl ErrBadName
      else let parts = SplitN2 (CHR ''/'') name;
               isReg = (length parts = 2 \<and>
                          (CHR ''.'' \<in> set (parts ! 0) \<or> CHR '':'' \<in> set (parts ! 0)));
               registry = (if isReg then parts ! 0 else []);
               repo = (if isReg then parts ! 1 else name)
           in if \<not> checkRepository repo then Inl ErrBadName
              else (case NewRegistry chk registry of
                      Inl e \<Rightarrow> Inl e
                    | Inr reg \<Rightarrow> Inr \<lparr>Registry = reg, repository = repo\<rparr>))"

definition NewTag :: "authority_check \<Rightarrow> string \<Rightarrow> name_error + Tag" where
  "NewTag chk name =
     (let parts = Split (CHR '':'') name;
          isTagged = (1 < length parts \<and> CHR ''/'' \<notin> set (last parts));
          base = (if isTagged then Join (CHR '':'') (butlast parts) else name);
          tag0 = (if isTagged then last parts else [])
      in if tag0 \<noteq> [] \<and> \<not> checkTag tag0 then Inl ErrBadName
         else let tag1 = (if tag0 = [] then defaultTag else tag0)
              in (case NewRepository chk base of
                    Inl e \<Rightarrow> Inl e
                  | Inr repo \<Rightarrow>
                      Inr \<lparr>tag_Repository = repo, tag = tag1, tag_original = name\<rparr>))"

definition NewDigest :: "authority_check \<Rightarrow> string \<Rightarrow> name_error + Digest" where
  "NewDigest chk name =
     (let parts = Split (CHR ''@'') name
      in if length parts \<noteq> 2 then Inl ErrBadName
         else let base = parts ! 0; dig = parts ! 1
              in if \<not> checkDigest dig then Inl ErrBadName
                 else let base1 = (case NewTag chk base of
                                     Inr t \<Rightarrow> Repository_Name (tag_Repository t)
                                   | Inl e \<Rightarrow> base)
                      in (case NewRepository chk base1 of
                            Inl e \<Rightarrow> Inl e
                          | Inr repo \<Rightarrow>
                              Inr \<lparr>digest_Repository = repo, digest = dig,
                                   digest_original = name\<rparr>))"

definition ParseReference :: "authority_check \<Rightarrow> string \<Rightarrow> name_error + Reference" where
  "ParseReference chk s =
     (case NewTag chk s of
        Inr t \<Rightarrow> Inr (TagReference t)
      | Inl e \<Rightarrow>
          (case NewDigest chk s of
             Inr d \<Rightarrow> Inr (DigestReference d)
           | Inl e' \<Rightarrow> Inl ErrBadName))"

section \<open>The destination naming scheme\<close>

text \<open>\<open>registryReplacer = strings.NewReplacer(".", "_", ":", "_")\<close>.\<close>

definition registryReplacer :: "string \<Rightarrow> string" where
  "registryReplacer s = map (\<lambda>c. if c = CHR ''.'' \<or> c = CHR '':'' then CHR ''_'' else c) s"

definition ReplaceAll_colon :: "string \<Rightarrow> string" where
  "ReplaceAll_colon s = map (\<lambda>c. if c = CHR '':'' then CHR ''_'' else c) s"

definition newRepository :: "Reference \<Rightarrow> string" where
  "newRepository srcImg =
     registryReplacer (RegistryStr (Registry (Reference_Context srcImg))) @ ''/'' @
     RepositoryStr (Reference_Context srcImg)"

fun newTag :: "Reference \<Rightarrow> string" where
  "newTag (TagReference t) = Reference_Identifier (TagReference t)"
| "newTag (DigestReference d) = ReplaceAll_colon (DigestStr d)"

definition toDestinationImage ::
  "authority_check \<Rightarrow> Reference \<Rightarrow> Registry \<Rightarrow> name_error + Tag" where
  "toDestinationImage chk srcImg dstRegistry =
     NewTag chk (RegistryStr dstRegistry @ ''/'' @ newRepository srcImg @ '':'' @ newTag srcImg)"

section \<open>Cluster objects and the world of one reconciliation attempt\<close>

text \<open>
  Of \<open>corev1.Container\<close>, \<open>corev1.PodTemplateSpec\<close> and the workload types
  \<open>appsv1.Deployment\<close> and \<open>appsv1.DaemonSet\<close> the records keep the fields the controller
  reads or writes, under their Go paths; all their other fields are the extension part of
  the record (\<open>\<dots>\<close>), which the functions below are polymorphic in. A Deployment and a
  DaemonSet have the same shape here, and differ by the \<open>kind\<close> they are stored under.
  The resource version, an opaque string in Kubernetes, is a counter.
\<close>

record Container =
  Name :: string
  Image :: string

record 'a PodTemplateSpec =
  Spec_Containers :: "'a Container_scheme list"

record ('a, 'b) Workload =
  ObjectMeta_Namespace :: string
  ObjectMeta_Name :: string
  ObjectMeta_ResourceVersion :: nat
  Spec_Template :: "('a, 'b) PodTemplateSpec_scheme"

datatype kind = Deployment | DaemonSet

type_synonym NamespacedName = "string \<times> string"

type_synonym object_key = "kind \<times> NamespacedName"

datatype api_error = IsNotFound | IsConflict | OtherAPIError

datatype reconcile_error =
    ErrorReadingObject api_error
  | FailedParsingImage string name_error
  | FailedRewritingImage string name_error
  | ErrorCopyingImage string string
  | APIError api_error

record Event =
  involvedObject :: object_key
  eventtype :: string
  reason :: string
  message :: reconcile_error

text \<open>
  The world outside the controller. \<open>reader\<close> is what \<open>c.Get\<close> answers for a key (the
  manager's client reads through a cache, so the answer need not be the stored object);
  \<open>stored\<close> are the objects the API server holds; \<open>transfer\<close> is the outcome of
  \<open>crane.Copy\<close> for a source and a destination, given the copies made before it;
  \<open>copies\<close>, \<open>patches\<close> and \<open>events\<close> log every call of \<open>crane.Copy\<close>, of \<open>c.Patch\<close>
  and of \<open>c.Recorder.Event\<close>, in order.
\<close>

record ('a, 'b, 'c) world =
  reader :: "object_key \<Rightarrow> api_error + ('a, 'b, 'c) Workload_scheme"
  stored :: "object_key \<rightharpoonup> ('a, 'b, 'c) Workload_scheme"
  transfer :: "(string \<times> string) list \<Rightarrow> string \<Rightarrow> string \<Rightarrow> bool"
  copies :: "(string \<times> string) list"
  patches :: "(object_key \<times> ('a, 'b, 'c) Workload_scheme) list"
  events :: "Event list"

record ImageCloneController =
  BackupRegistry :: Registry
  PodNamespace :: string

section \<open>The namespace filter\<close>

text \<open>\<open>metav1.NamespaceSystem\<close> is the Kubernetes constant \<open>"kube-system"\<close>.\<close>

definition NamespaceSystem :: string where
  "NamespaceSystem = ''kube-system''"

definition RegistryNamespace :: string where
  "RegistryNamespace = ''registry''"

text \<open>The package variable \<open>ignoredNamespaces\<close>, at its initial value.\<close>

definition ignoredNamespaces :: "string set" where
  "ignoredNamespaces = {NamespaceSystem, RegistryNamespace, ''local-path-storage''}"

text \<open>
  \<open>SetupWithManager\<close> as it acts on that variable: it inserts the controller's own
  namespace when it is set, then registers the two reconcilers with the manager (which
  does not touch the variable). The argument is the variable's value before the call, the
  result its value after.
\<close>

definition SetupWithManager :: "ImageCloneController \<Rightarrow> string set \<Rightarrow> string set" where
  "SetupWithManager c ignored =
     (if PodNamespace c \<noteq> [] then insert (PodNamespace c) ignored else ignored)"

definition namespacePredicate :: "string set \<Rightarrow> ('a, 'b, 'c) Workload_scheme \<Rightarrow> bool" where
  "namespacePredicate ignored obj \<longleftrightarrow> ObjectMeta_Namespace obj \<notin> ignored"

section \<open>Reconciliation\<close>

text \<open>
  The loop of \<open>reconcilePodTemplate\<close> over \<open>template.Spec.Containers\<close>. It returns the
  error (\<open>None\<close> is \<open>nil\<close>), the containers as the loop leaves them in memory (on an error
  the containers before the failing one keep their rewritten images) and the world.
\<close>

fun reconcileContainers ::
  "authority_check \<Rightarrow> ImageCloneController \<Rightarrow> ('a, 'b, 'c) world \<Rightarrow> 'd Container_scheme list \<Rightarrow>
     reconcile_error option \<times> 'd Container_scheme list \<times> ('a, 'b, 'c) world" where
  "reconcileContainers chk c w [] = (None, [], w)"
| "reconcileContainers chk c w (container # rest) =
     (case ParseReference chk (Image container) of
        Inl err \<Rightarrow> (Some (FailedParsingImage (Image container) err), container # rest, w)
      | Inr srcImg \<Rightarrow>
          if Registry (Reference_Context srcImg) = BackupRegistry c
          then (case reconcileContainers chk c w rest of
                  (err, rest', w') \<Rightarrow> (err, container # rest', w'))
          else (case toDestinationImage chk srcImg (BackupRegistry c) of
                  Inl err \<Rightarrow>
                    (Some (FailedRewritingImage (Reference_Name srcImg) err), container # rest, w)
                | Inr dstImg \<Rightarrow>
                    let w1 = w\<lparr>copies := copies w @ [(Reference_Name srcImg, Tag_Name dstImg)]\<rparr>
                    in if \<not> transfer w (copies w) (Reference_Name srcImg) (Tag_Name dstImg)
                       then (Some (ErrorCopyingImage (Reference_Name srcImg) (Tag_Name dstImg)),
                             container # rest, w1)
                       else (case reconcileContainers chk c w1 rest of
                               (err, rest', w') \<Rightarrow>
                                 (err, container\<lparr>Image := Tag_Name dstImg\<rparr> # rest', w'))))"

definition reconcilePodTemplate ::
  "authority_check \<Rightarrow> ImageCloneController \<Rightarrow> ('a, 'b, 'c) world \<Rightarrow> ('d, 'e) PodTemplateSpec_scheme \<Rightarrow>
     reconcile_error option \<times> ('d, 'e) PodTemplateSpec_scheme \<times> ('a, 'b, 'c) world" where
  "reconcilePodTemplate chk c w template =
     (case reconcileContainers chk c w (Spec_Containers template) of
        (err, containers, w') \<Rightarrow> (err, template\<lparr>Spec_Containers := containers\<rparr>, w'))"

text \<open>
  \<open>c.Patch(ctx, obj, client.StrategicMergeFrom(before, client.MergeFromWithOptimisticLock{}))\<close>:
  the patch carries the resource version of \<open>before\<close>, and the API server applies it only
  to a stored object of that version.
\<close>

definition Patch ::
  "('a, 'b, 'c) world \<Rightarrow> kind \<Rightarrow> ('a, 'b, 'c) Workload_scheme \<Rightarrow> ('a, 'b, 'c) Workload_scheme \<Rightarrow>
     reconcile_error option \<times> ('a, 'b, 'c) world" where
  "Patch w k obj before0 =
     (let key = (k, ObjectMeta_Namespace obj, ObjectMeta_Name obj);
          w1 = w\<lparr>patches := patches w @ [(key, obj)]\<rparr>
      in case stored w key of
           None \<Rightarrow> (Some (APIError IsNotFound), w1)
         | Some cur \<Rightarrow>
             if ObjectMeta_ResourceVersion cur \<noteq> ObjectMeta_ResourceVersion before0
             then (Some (APIError IsConflict), w1)
             else (None, w1\<lparr>stored := (stored w)(key \<mapsto>
                     obj\<lparr>ObjectMeta_ResourceVersion := Suc (ObjectMeta_ResourceVersion cur)\<rparr>)\<rparr>))"

definition warningEvent :: "kind \<Rightarrow> ('a, 'b, 'c) Workload_scheme \<Rightarrow> reconcile_error \<Rightarrow> Event" where
  "warningEvent k obj err =
     \<lparr>involvedObject = (k, ObjectMeta_Namespace obj, ObjectMeta_Name obj),
      eventtype = ''Warning'', reason = ''FailedCopyingImages'', message = err\<rparr>"

definition ReconcileDeployment ::
  "authority_check \<Rightarrow> ImageCloneController \<Rightarrow> ('a, 'b, 'c) world \<Rightarrow> NamespacedName \<Rightarrow>
     reconcile_error option \<times> ('a, 'b, 'c) world" where
  "ReconcileDeployment chk c w req =
     (case reader w (Deployment, req) of
        Inl err \<Rightarrow>
          if err = IsNotFound then (None, w) else (Some (ErrorReadingObject err), w)
      | Inr deployment \<Rightarrow>
          let before0 = deployment
          in (case reconcilePodTemplate chk c w (Spec_Template deployment) of
                (Some err, template, w1) \<Rightarrow>
                  (Some err,
                   w1\<lparr>events := events w1 @
                        [warningEvent Deployment (deployment\<lparr>Spec_Template := template\<rparr>) err]\<rparr>)
              | (None, template, w1) \<Rightarrow>
                  if before0 \<noteq> deployment\<lparr>Spec_Template := template\<rparr>
                  then Patch w1 Deployment (deployment\<lparr>Spec_Template := template\<rparr>) before0
                  else (None, w1)))"

definition ReconcileDaemonSet ::
  "authority_check \<Rightarrow> ImageCloneController \<Rightarrow> ('a, 'b, 'c) world \<Rightarrow> NamespacedName \<Rightarrow>
     reconcile_error option \<times> ('a, 'b, 'c) world" where
  "ReconcileDaemonSet chk c w req =
     (case reader w (DaemonSet, req) of
        Inl err \<Rightarrow>
          if err = IsNotFound then (None, w) else (Some (ErrorReadingObject err), w)
      | Inr daemonSet \<Rightarrow>
          let before0 = daemonSet
          in (case reconcilePodTemplate chk c w (Spec_Template daemonSet) of
                (Some err, template, w1) \<Rightarrow>
                  (Some err,
                   w1\<lparr>events := events w1 @
                        [warningEvent DaemonSet (daemonSet\<lparr>Spec_Template := template\<rparr>) err]\<rparr>)
              | (None, template, w1) \<Rightarrow>
                  if before0 \<noteq> daemonSet\<lparr>Spec_Template := template\<rparr>
                  then Patch w1 DaemonSet (daemonSet\<lparr>Spec_Template := template\<rparr>) before0
                  else (None, w1)))"

text \<open>
  \<open>SetupWithManager\<close> registers \<open>ReconcileDeployment\<close> for Deployments and
  \<open>ReconcileDaemonSet\<close> for DaemonSets; \<open>Reconcile k\<close> is the reconciler that the manager
  calls for an object of kind \<open>k\<close>.
\<close>

fun Reconcile ::
  "kind \<Rightarrow> authority_check \<Rightarrow> ImageCloneController \<Rightarrow> ('a, 'b, 'c) world \<Rightarrow> NamespacedName \<Rightarrow>
     reconcile_error option \<times> ('a, 'b, 'c) world" where
  "Reconcile Deployment = ReconcileDeployment"
| "Reconcile DaemonSet = ReconcileDaemonSet"

text \<open>The test of \<open>reconcilePodTemplate\<close> that makes the loop \<open>continue\<close>: the image of
  the container parses, and the registry of the reference is the backup registry.\<close>

definition alreadyMirrored ::
  "authority_check \<Rightarrow> ImageCloneController \<Rightarrow> 'd Container_scheme \<Rightarrow> bool" where
  "alreadyMirrored chk c container =
     (case ParseReference chk (Image container) of
        Inl err \<Rightarrow> False
      | Inr srcImg \<Rightarrow> Registry (Reference_Context srcImg) = BackupRegistry c)"

section \<open>Well-formed references\<close>

text \<open>
  What the proofs below assume of the authority check, both true of the check that
  \<open>net/url\<close> makes: it accepts the default registry \<open>index.docker.io\<close>, and it accepts no
  string with a \<open>/\<close> (the authority of a URL ends at the first \<open>/\<close>).
\<close>

definition authorityCheck :: "authority_check \<Rightarrow> bool" where
  "authorityCheck chk \<longleftrightarrow> chk DefaultRegistry \<and> (\<forall>s. chk s \<longrightarrow> CHR ''/'' \<notin> set s)"

text \<open>\<open>NewRepository\<close> takes the first segment of a name for a registry exactly when
  it contains a \<open>.\<close> or a \<open>:\<close>.\<close>

definition explicitAuthority :: "string \<Rightarrow> bool" where
  "explicitAuthority r \<longleftrightarrow> CHR ''.'' \<in> set r \<or> CHR '':'' \<in> set r"

text \<open>
  What holds of every repository that \<open>NewRepository\<close> returns and of every reference
  that \<open>ParseReference\<close> returns (lemmas \<open>NewRepository_wf\<close>, \<open>ParseReference_wf\<close>).
\<close>

definition wfRepository :: "authority_check \<Rightarrow> Repository \<Rightarrow> bool" where
  "wfRepository chk repo \<longleftrightarrow>
     checkRepository (repository repo) \<and>
     (registry (Registry repo) = DefaultRegistry \<or>
      explicitAuthority (registry (Registry repo)) \<and>
      CHR ''/'' \<notin> set (registry (Registry repo)) \<and>
      registry (Registry repo) \<noteq> defaultRegistryAlias \<and>
      chk (registry (Registry repo)))"

fun wfReference :: "authority_check \<Rightarrow> Reference \<Rightarrow> bool" where
  "wfReference chk (TagReference t) \<longleftrightarrow> wfRepository chk (tag_Repository t) \<and> checkTag (tag t)"
| "wfReference chk (DigestReference d) \<longleftrightarrow>
     wfRepository chk (digest_Repository d) \<and> checkDigest (digest d) \<and>
     CHR ''@'' \<notin> set (registry (Registry (digest_Repository d)))"

section \<open>The specification's image reference\<close>

text \<open>
  The specification describes an image reference as a registry authority, a repository
  path and an identifier that is either a tag or a digest, with \<open>parse\<close> and \<open>serialize\<close>
  between strings and references. \<open>imageReference\<close> reads these three components off a
  \<open>name.Reference\<close> through its accessors; \<open>parse\<close> is \<open>ParseReference\<close> read in this
  way, and \<open>serialize\<close> is \<open>Name()\<close>, the string that the controller writes into a
  container's image field. (Go's \<open>==\<close> on two \<open>name.Tag\<close> values would also compare the
  original input string and the repository as written, which are no components of the
  specification's reference.)
\<close>

datatype Identifier = TagIdentifier string | DigestIdentifier string

record ImageReference =
  ref_registry :: string
  ref_repository :: string
  ref_identifier :: Identifier

fun imageReference :: "Reference \<Rightarrow> ImageReference" where
  "imageReference (TagReference t) =
     \<lparr>ref_registry = RegistryStr (Registry (tag_Repository t)),
      ref_repository = RepositoryStr (tag_Repository t), ref_identifier = TagIdentifier (TagStr t)\<rparr>"
| "imageReference (DigestReference d) =
     \<lparr>ref_registry = RegistryStr (Registry (digest_Repository d)),
      ref_repository = RepositoryStr (digest_Repository d), ref_identifier = DigestIdentifier (DigestStr d)\<rparr>"

definition parse :: "authority_check \<Rightarrow> string \<Rightarrow> name_error + ImageReference" where
  "parse chk s = map_sum id imageReference (ParseReference chk s)"

definition serialize :: "Reference \<Rightarrow> string" where
  "serialize x = Reference_Name x"


section \<open>Sample inputs\<close>

text \<open>
  An authority check for the examples: it accepts \<open>host\<close> and \<open>host:port\<close> where the host
  is made of letters, digits, \<open>.\<close> and \<open>-\<close> (or is empty) and the port of digits. Go's
  \<open>net/url\<close> returns every such string unchanged as the host of \<open>"//" + name\<close>.
\<close>

definition hostPort :: authority_check where
  "hostPort s =
     (let host = takeWhile (\<lambda>c. c \<noteq> CHR '':'') s; port = dropWhile (\<lambda>c. c \<noteq> CHR '':'') s
      in list_all (\<lambda>c. c \<in> set ''abcdefghijklmnopqrstuvwxyzABCDEFGHIJKLMNOPQRSTUVWXYZ0123456789.-'') host \<and>
         (port = [] \<or> list_all (\<lambda>c. c \<in> set ''0123456789'') (tl port)))"

definition backup0 :: Registry where
  "backup0 = \<lparr>registry = ''10.96.0.11:5001''\<rparr>"

definition controller0 :: ImageCloneController where
  "controller0 = \<lparr>BackupRegistry = backup0, PodNamespace = ''image-clone-system''\<rparr>"

text \<open>A Deployment with three containers, in a world where the transfer of the second
  container's image fails.\<close>

definition deployment0 :: "(unit, unit, unit) Workload_scheme" where
  "deployment0 =
     \<lparr>ObjectMeta_Namespace = ''default'', ObjectMeta_Name = ''web'', ObjectMeta_ResourceVersion = 7,
      Spec_Template = \<lparr>Spec_Containers =
        [\<lparr>Name = ''a'', Image = ''nginx''\<rparr>, \<lparr>Name = ''b'', Image = ''busybox:1.36''\<rparr>,
         \<lparr>Name = ''c'', Image = ''redis''\<rparr>]\<rparr>\<rparr>"

definition world0 :: "(unit, unit, unit) world" where
  "world0 =
     \<lparr>reader = (\<lambda>key. if key = (Deployment, ''default'', ''web'') then Inr deployment0
                      else Inl IsNotFound),
      stored = [(Deployment, ''default'', ''web'') \<mapsto> deployment0],
      transfer = (\<lambda>log src dst. src \<noteq> ''index.docker.io/library/busybox:1.36''),
      copies = [], patches = [], events = []\<rparr>"

text \<open>A DaemonSet whose containers all reference the backup registry already.\<close>

definition mirrored0 :: "(unit, unit, unit) Workload_scheme" where
  "mirrored0 =
     \<lparr>ObjectMeta_Namespace = ''default'', ObjectMeta_Name = ''cache'', ObjectMeta_ResourceVersion = 3,
      Spec_Template = \<lparr>Spec_Containers =
        [\<lparr>Name = ''a'', Image = ''10.96.0.11:5001/index_docker_io/library/nginx:latest''\<rparr>,
         \<lparr>Name = ''b'', Image = ''10.96.0.11:5001/ghcr_io/timebertt/speedtest-exporter:v0.1.0''\<rparr>]\<rparr>\<rparr>"

definition world1 :: "(unit, unit, unit) world" where
  "world1 =
     \<lparr>reader = (\<lambda>key. if key = (DaemonSet, ''default'', ''cache'') then Inr mirrored0
                      else Inl IsNotFound),
      stored = [(DaemonSet, ''default'', ''cache'') \<mapsto> mirrored0],
      transfer = (\<lambda>log src dst. True),
      copies = [], patches = [], events = []\<rparr>"

text \<open>The reference that \<open>nginx\<close> parses to, and its destination in the registry
  \<open>10.96.0.11:5001\<close>.\<close>

definition nginxRef :: Reference where
  "nginxRef = TagReference
     \<lparr>tag_Repository = \<lparr>Registry = \<lparr>registry = ''index.docker.io''\<rparr>, repository = ''nginx''\<rparr>,
      tag = ''latest'', tag_original = ''nginx''\<rparr>"

definition nginxMirror :: Tag where
  "nginxMirror =
     \<lparr>tag_Repository = \<lparr>Registry = backup0, repository = ''index_docker_io/library/nginx''\<rparr>,
      tag = ''latest'', tag_original = ''10.96.0.11:5001/index_docker_io/library/nginx:latest''\<rparr>"

text \<open>A backup registry whose authority has neither a \<open>.\<close> nor a \<open>:\<close>, and the
  destination of \<open>nginx\<close> in it.\<close>

definition localhost0 :: Registry where
  "localhost0 = \<lparr>registry = ''localhost''\<rparr>"

definition controllerL :: ImageCloneController where
  "controllerL = \<lparr>BackupRegistry = localhost0, PodNamespace = []\<rparr>"

definition localMirror :: Tag where
  "localMirror =
     \<lparr>tag_Repository = \<lparr>Registry = \<lparr>registry = ''index.docker.io''\<rparr>,
                          repository = ''localhost/index_docker_io/library/nginx''\<rparr>,
      tag = ''latest'', tag_original = ''localhost/index_docker_io/library/nginx:latest''\<rparr>"

text \<open>A repository name of 250 bytes, which the repository check accepts.\<close>

definition longName :: string where
  "longName = replicate 250 (CHR ''a'')"

definition longRef :: Reference where
  "longRef = TagReference
     \<lparr>tag_Repository = \<lparr>Registry = \<lparr>registry = ''index.docker.io''\<rparr>, repository = longName\<rparr>,
      tag = ''latest'', tag_original = longName\<rparr>"

text \<open>The template of \<open>deployment0\<close> with every image mirrored, and a world in which the
  Deployment is read with that template.\<close>

definition template1 :: "unit PodTemplateSpec" where
  "template1 =
     \<lparr>Spec_Containers =
        [\<lparr>Name = ''a'', Image = ''10.96.0.11:5001/index_docker_io/library/nginx:latest''\<rparr>,
         \<lparr>Name = ''b'', Image = ''10.96.0.11:5001/index_docker_io/library/busybox:1.36''\<rparr>,
         \<lparr>Name = ''c'', Image = ''10.96.0.11:5001/index_docker_io/library/redis:latest''\<rparr>]\<rparr>"

definition world2 :: "(unit, unit, unit) world" where
  "world2 =
     \<lparr>reader = (\<lambda>key. if key = (Deployment, ''default'', ''web'')
                      then Inr (deployment0\<lparr>ObjectMeta_ResourceVersion := 8, Spec_Template := template1\<rparr>)
                      else Inl IsNotFound),
      stored = [(Deployment, ''default'', ''web'') \<mapsto>
                  deployment0\<lparr>ObjectMeta_ResourceVersion := 8, Spec_Template := template1\<rparr>],
      transfer = (\<lambda>log src dst. True),
      copies = [], patches = [], events = []\<rparr>"


section \<open>Strings\<close>

lemma Split_not_Nil: "Split sep s \<noteq> []"
  by (induction s) (auto split: list.splits)

lemma Split_no_sep: "sep \<notin> set s \<Longrightarrow> Split sep s = [s]"
  by (induction s) auto

lemma Split_append_sep: "Split sep (a @ sep # b) = Split sep a @ Split sep b"
  by (induction a) (auto split: list.splits simp: Split_not_Nil)

lemma Split_append_no_sep:
  "sep \<notin> set b \<Longrightarrow> Split sep (a @ b) = butlast (Split sep a) @ [last (Split sep a) @ b]"
proof (induction a)
  case Nil
  then show ?case by (simp add: Split_no_sep)
next
  case (Cons c a)
  then show ?case
    by (cases "Split sep a"; cases "Split sep (a @ b)")
       (auto simp: Split_not_Nil split: if_splits)
qed

lemma Join_Split: "Join sep (Split sep s) = s"
proof (induction s)
  case Nil
  show ?case by simp
next
  case (Cons c s)
  then show ?case
    by (cases "Split sep s" rule: remdups_adj.cases) (auto simp: Split_not_Nil)
qed

lemma Split_pieces: "p \<in> set (Split sep s) \<Longrightarrow> sep \<notin> set p"
  by (induction s arbitrary: p) (auto split: if_splits list.splits)

lemma Join_snoc: "ps \<noteq> [] \<Longrightarrow> Join sep (ps @ [q]) = Join sep ps @ sep # q"
  by (induction ps rule: Join.induct) auto

lemma Split_decompose:
  assumes "1 < length (Split sep s)"
  shows "s = Join sep (butlast (Split sep s)) @ sep # last (Split sep s)"
proof -
  have "Split sep s = butlast (Split sep s) @ [last (Split sep s)]"
    by (simp add: Split_not_Nil)
  moreover have "butlast (Split sep s) \<noteq> []"
    using assms by (cases "Split sep s" rule: remdups_adj.cases) auto
  ultimately have "Join sep (Split sep s) =
      Join sep (butlast (Split sep s)) @ sep # last (Split sep s)"
    using Join_snoc[of "butlast (Split sep s)" sep "last (Split sep s)"] by simp
  then show ?thesis by (simp add: Join_Split)
qed

lemma Split_length_one: "length (Split sep s) = 1 \<longleftrightarrow> sep \<notin> set s"
proof
  assume "length (Split sep s) = 1"
  then obtain p where p: "Split sep s = [p]"
    by (cases "Split sep s" rule: remdups_adj.cases) auto
  then have "s = p" using Join_Split[of sep s] by simp
  moreover have "sep \<notin> set p" using Split_pieces[of p sep s] p by simp
  ultimately show "sep \<notin> set s" by simp
next
  assume "sep \<notin> set s"
  then show "length (Split sep s) = 1" by (simp add: Split_no_sep)
qed

lemma SplitN2_sep: "sep \<notin> set a \<Longrightarrow> SplitN2 sep (a @ sep # b) = [a, b]"
proof -
  assume a: "sep \<notin> set a"
  then have "takeWhile (\<lambda>c. c \<noteq> sep) (a @ sep # b) = a"
    by (induction a) auto
  moreover from a have "dropWhile (\<lambda>c. c \<noteq> sep) (a @ sep # b) = sep # b"
    by (induction a) auto
  ultimately show ?thesis by (simp add: SplitN2_def)
qed

lemma SplitN2_no_sep: "sep \<notin> set s \<Longrightarrow> SplitN2 sep s = [s]"
  by (simp add: SplitN2_def)

lemma SplitN2_decompose:
  "length (SplitN2 sep s) = 2 \<Longrightarrow>
     s = SplitN2 sep s ! 0 @ sep # SplitN2 sep s ! 1 \<and> sep \<notin> set (SplitN2 sep s ! 0)"
proof -
  assume a: "length (SplitN2 sep s) = 2"
  then have m: "sep \<in> set s" by (auto simp: SplitN2_def split: if_splits)
  then have d: "dropWhile (\<lambda>c. c \<noteq> sep) s \<noteq> []" by simp
  then have h: "hd (dropWhile (\<lambda>c. c \<noteq> sep) s) = sep"
    using hd_dropWhile[of "\<lambda>c. c \<noteq> sep" s] by simp
  have "s = takeWhile (\<lambda>c. c \<noteq> sep) s @ dropWhile (\<lambda>c. c \<noteq> sep) s" by simp
  also have "dropWhile (\<lambda>c. c \<noteq> sep) s = sep # tl (dropWhile (\<lambda>c. c \<noteq> sep) s)"
    using d h by (cases "dropWhile (\<lambda>c. c \<noteq> sep) s") auto
  finally have "s = takeWhile (\<lambda>c. c \<noteq> sep) s @ sep # tl (dropWhile (\<lambda>c. c \<noteq> sep) s)" .
  moreover have "sep \<notin> set (takeWhile (\<lambda>c. c \<noteq> sep) s)"
    by (auto dest: set_takeWhileD)
  ultimately show ?thesis using m by (simp add: SplitN2_def)
qed

lemma takeWhile_sep: "sep \<notin> set a \<Longrightarrow> takeWhile (\<lambda>c. c \<noteq> sep) (a @ sep # b) = a"
  by (induction a) auto


section \<open>The checks of the \<open>name\<close> package\<close>

lemma checkElement_chars: "checkElement allowed lo hi e \<Longrightarrow> c \<in> set e \<Longrightarrow> c \<in> set allowed"
  by (auto simp: checkElement_def list_all_iff)

lemma tagChars_no_delims:
  "CHR '':'' \<notin> set tagChars \<and> CHR ''/'' \<notin> set tagChars \<and> CHR ''@'' \<notin> set tagChars"
  by (simp add: tagChars_def)

lemma repositoryChars_no_delims:
  "CHR '':'' \<notin> set repositoryChars \<and> CHR ''@'' \<notin> set repositoryChars"
  by (simp add: repositoryChars_def)

lemma digestChars_no_delims:
  "CHR ''/'' \<notin> set digestChars \<and> CHR ''@'' \<notin> set digestChars"
  by (simp add: digestChars_def)

lemma checkTag_no_delims:
  "checkTag t \<Longrightarrow> CHR '':'' \<notin> set t \<and> CHR ''/'' \<notin> set t \<and> CHR ''@'' \<notin> set t \<and> t \<noteq> []"
  using checkElement_chars[of tagChars 1 128 t] tagChars_no_delims
  by (auto simp: checkTag_def checkElement_def)

lemma checkRepository_no_delims:
  "checkRepository p \<Longrightarrow> CHR '':'' \<notin> set p \<and> CHR ''@'' \<notin> set p \<and> p \<noteq> []"
  using checkElement_chars[of repositoryChars 2 255 p] repositoryChars_no_delims
  by (auto simp: checkRepository_def checkElement_def)

lemma checkDigest_no_delims:
  "checkDigest d \<Longrightarrow> CHR ''/'' \<notin> set d \<and> CHR ''@'' \<notin> set d \<and> length d = 71"
  using checkElement_chars[of digestChars "7 + 64" "7 + 64" d] digestChars_no_delims
  by (auto simp: checkDigest_def checkElement_def)

lemma checkTag_defaultTag: "checkTag defaultTag"
  by (simp add: checkTag_def checkElement_def defaultTag_def tagChars_def)

lemma DefaultRegistry_explicit:
  "explicitAuthority DefaultRegistry \<and> CHR ''/'' \<notin> set DefaultRegistry \<and>
   CHR ''@'' \<notin> set DefaultRegistry \<and> DefaultRegistry \<noteq> defaultRegistryAlias \<and> DefaultRegistry \<noteq> []"
  by (simp add: explicitAuthority_def DefaultRegistry_def defaultRegistryAlias_def)

lemma explicitAuthority_not_Nil: "explicitAuthority r \<Longrightarrow> r \<noteq> []"
  by (auto simp: explicitAuthority_def)

lemma DefaultRegistry_not_alias: "DefaultRegistry \<noteq> defaultRegistryAlias"
  by (simp add: DefaultRegistry_def defaultRegistryAlias_def)

lemma alias_not_Nil: "defaultRegistryAlias \<noteq> []"
  by (simp add: defaultRegistryAlias_def)

lemma NewRegistry_Inr:
  "NewRegistry chk name = Inr reg \<longleftrightarrow>
     chk name \<and>
     registry reg = (if name = [] \<or> name = defaultRegistryAlias then DefaultRegistry else name)"
  using DefaultRegistry_not_alias alias_not_Nil
  by (cases reg) (auto simp: NewRegistry_def Let_def)

text \<open>The repository of a name \<open>R/P\<close> whose first segment \<open>R\<close> is an explicit authority.\<close>

lemma NewRepository_explicit:
  assumes "CHR ''/'' \<notin> set R" and "explicitAuthority R"
  shows "NewRepository chk (R @ CHR ''/'' # P) =
           (if checkRepository P \<and> chk R
            then Inr \<lparr>Registry = \<lparr>registry = (if R = defaultRegistryAlias then DefaultRegistry else R)\<rparr>,
                      repository = P\<rparr>
            else Inl ErrBadName)"
proof -
  have s: "SplitN2 (CHR ''/'') (R @ CHR ''/'' # P) = [R, P]"
    by (rule SplitN2_sep[OF assms(1)])
  have n: "R \<noteq> []" using assms(2) by (rule explicitAuthority_not_Nil)
  show ?thesis
    using assms(2) n
    by (simp add: NewRepository_def s Let_def NewRegistry_def explicitAuthority_def)
qed

text \<open>The repository of a name whose first segment is not an explicit authority.\<close>

lemma NewRepository_implicit:
  assumes "CHR ''/'' \<notin> set R" and "\<not> explicitAuthority R"
  shows "NewRepository chk (R @ CHR ''/'' # P) =
           (if checkRepository (R @ CHR ''/'' # P) \<and> chk []
            then Inr \<lparr>Registry = \<lparr>registry = DefaultRegistry\<rparr>, repository = R @ CHR ''/'' # P\<rparr>
            else Inl ErrBadName)"
proof -
  have s: "SplitN2 (CHR ''/'') (R @ CHR ''/'' # P) = [R, P]"
    by (rule SplitN2_sep[OF assms(1)])
  show ?thesis
    using assms(2)
    using DefaultRegistry_not_alias
    by (simp add: NewRepository_def s Let_def NewRegistry_def explicitAuthority_def)
qed

lemma NewRepository_wf:
  assumes "NewRepository chk name = Inr repo"
  shows "wfRepository chk repo"
proof -
  let ?parts = "SplitN2 (CHR ''/'') name"
  let ?isReg = "length ?parts = 2 \<and> explicitAuthority (?parts ! 0)"
  show ?thesis
  proof (cases ?isReg)
    case True
    then have d: "name = ?parts ! 0 @ CHR ''/'' # ?parts ! 1" and ns: "CHR ''/'' \<notin> set (?parts ! 0)"
      using SplitN2_decompose[of "CHR ''/''" name] by simp_all
    from True have e: "explicitAuthority (?parts ! 0)" by simp
    have "NewRepository chk (?parts ! 0 @ CHR ''/'' # ?parts ! 1) = Inr repo"
      using assms d by simp
    then show ?thesis
      using e ns DefaultRegistry_explicit
      by (auto simp: NewRepository_explicit[OF ns e] wfRepository_def split: if_splits)
  next
    case False
    then show ?thesis using assms
      by (auto simp: NewRepository_def Let_def NewRegistry_def wfRepository_def explicitAuthority_def
          split: if_splits sum.splits)
  qed
qed

lemma NewRepository_no_at:
  assumes "NewRepository chk name = Inr repo" and "CHR ''@'' \<notin> set name"
  shows "CHR ''@'' \<notin> set (registry (Registry repo))"
proof -
  let ?parts = "SplitN2 (CHR ''/'') name"
  let ?isReg = "length ?parts = 2 \<and> explicitAuthority (?parts ! 0)"
  show ?thesis
  proof (cases ?isReg)
    case True
    then have d: "name = ?parts ! 0 @ CHR ''/'' # ?parts ! 1" and ns: "CHR ''/'' \<notin> set (?parts ! 0)"
      using SplitN2_decompose[of "CHR ''/''" name] by simp_all
    from True have e: "explicitAuthority (?parts ! 0)" by simp
    have a: "CHR ''@'' \<notin> set (?parts ! 0)"
      using assms(2) by (subst (asm) d) simp
    have "NewRepository chk (?parts ! 0 @ CHR ''/'' # ?parts ! 1) = Inr repo"
      using assms d by simp
    then show ?thesis
      using a DefaultRegistry_explicit
      by (auto simp: NewRepository_explicit[OF ns e] split: if_splits)
  next
    case False
    then show ?thesis using assms DefaultRegistry_explicit
      by (auto simp: NewRepository_def Let_def NewRegistry_def explicitAuthority_def
          split: if_splits sum.splits)
  qed
qed


section \<open>What parsing returns\<close>

lemma NewTag_tagged:
  assumes "CHR '':'' \<notin> set T" and "CHR ''/'' \<notin> set T" and "T \<noteq> []"
  shows "NewTag chk (X @ CHR '':'' # T) =
           (if \<not> checkTag T then Inl ErrBadName
            else (case NewRepository chk X of
                    Inl e \<Rightarrow> Inl e
                  | Inr repo \<Rightarrow>
                      Inr \<lparr>tag_Repository = repo, tag = T, tag_original = X @ CHR '':'' # T\<rparr>))"
proof -
  have s: "Split (CHR '':'') (X @ CHR '':'' # T) = Split (CHR '':'') X @ [T]"
    by (simp add: Split_append_sep Split_no_sep[OF assms(1)])
  have l: "1 < length (Split (CHR '':'') X @ [T])"
    using Split_not_Nil[of "CHR '':''" X] by (cases "Split (CHR '':'') X") auto
  show ?thesis
    unfolding NewTag_def s Let_def
    using assms l by (simp add: Join_Split split: sum.splits)
qed

lemma NewTag_untagged:
  assumes "CHR '':'' \<notin> set Q"
  shows "NewTag chk (R @ CHR ''/'' # Q) =
           (case NewRepository chk (R @ CHR ''/'' # Q) of
              Inl e \<Rightarrow> Inl e
            | Inr repo \<Rightarrow>
                Inr \<lparr>tag_Repository = repo, tag = defaultTag, tag_original = R @ CHR ''/'' # Q\<rparr>)"
proof -
  have "CHR '':'' \<notin> set (CHR ''/'' # Q)" using assms by simp
  then have s: "Split (CHR '':'') (R @ CHR ''/'' # Q) =
      butlast (Split (CHR '':'') R) @ [last (Split (CHR '':'') R) @ CHR ''/'' # Q]"
    by (rule Split_append_no_sep)
  show ?thesis
    unfolding NewTag_def s Let_def by (simp split: sum.splits)
qed

lemma NewTag_base:
  assumes "NewTag chk s = Inr t"
  shows "\<exists>base. NewRepository chk base = Inr (tag_Repository t) \<and> set base \<subseteq> set s \<and> checkTag (tag t)"
proof -
  let ?parts = "Split (CHR '':'') s"
  let ?tagged = "1 < length ?parts \<and> CHR ''/'' \<notin> set (last ?parts)"
  show ?thesis
  proof (cases ?tagged)
    case True
    then have d: "s = Join (CHR '':'') (butlast ?parts) @ CHR '':'' # last ?parts"
      using Split_decompose[of "CHR '':''" s] by simp
    have sub: "set (Join (CHR '':'') (butlast ?parts)) \<subseteq> set s"
      by (subst (2) d) auto
    from assms True have
      "NewRepository chk (Join (CHR '':'') (butlast ?parts)) = Inr (tag_Repository t) \<and> checkTag (tag t)"
      using checkTag_defaultTag
      by (auto simp: NewTag_def Let_def split: if_splits sum.splits)
    with sub show ?thesis by blast
  next
    case False
    with assms have "NewRepository chk s = Inr (tag_Repository t) \<and> checkTag (tag t)"
      using checkTag_defaultTag
      by (auto simp: NewTag_def Let_def split: if_splits sum.splits)
    then show ?thesis by blast
  qed
qed

lemma NewTag_wf:
  "NewTag chk s = Inr t \<Longrightarrow> wfReference chk (TagReference t)"
  using NewTag_base[of chk s t] NewRepository_wf by auto

lemma defaultNamespace_no_at: "CHR ''@'' \<notin> set defaultNamespace"
  by (simp add: defaultNamespace_def)

lemma Repository_Name_no_at:
  assumes "checkRepository (repository repo)" and "CHR ''@'' \<notin> set (registry (Registry repo))"
  shows "CHR ''@'' \<notin> set (Repository_Name repo)"
  using assms checkRepository_no_delims[of "repository repo"] defaultNamespace_no_at
  by (auto simp: Repository_Name_def RepositoryStr_def Registry_Name_def RegistryStr_def Let_def)

lemma NewTag_no_at:
  assumes "NewTag chk s = Inr t" and "CHR ''@'' \<notin> set s"
  shows "CHR ''@'' \<notin> set (Repository_Name (tag_Repository t))"
proof -
  obtain base where b: "NewRepository chk base = Inr (tag_Repository t)" and sub: "set base \<subseteq> set s"
    using NewTag_base[OF assms(1)] by blast
  from sub assms(2) have "CHR ''@'' \<notin> set base" by blast
  then have "CHR ''@'' \<notin> set (registry (Registry (tag_Repository t)))"
    by (rule NewRepository_no_at[OF b])
  moreover have "checkRepository (repository (tag_Repository t))"
    using NewRepository_wf[OF b] by (simp add: wfRepository_def)
  ultimately show ?thesis by (simp add: Repository_Name_no_at)
qed

lemma NewDigest_wf:
  assumes "NewDigest chk s = Inr d"
  shows "wfReference chk (DigestReference d)"
proof -
  let ?parts = "Split (CHR ''@'') s"
  from assms have l: "length ?parts = 2"
    by (auto simp: NewDigest_def Let_def split: if_splits)
  then have "?parts ! 0 \<in> set ?parts" by simp
  then have noat: "CHR ''@'' \<notin> set (?parts ! 0)" by (rule Split_pieces)
  let ?base1 = "case NewTag chk (?parts ! 0) of
                  Inr t \<Rightarrow> Repository_Name (tag_Repository t) | Inl e \<Rightarrow> ?parts ! 0"
  have b1: "CHR ''@'' \<notin> set ?base1"
    using noat NewTag_no_at[of chk "?parts ! 0"] by (auto split: sum.splits)
  from assms l have r: "NewRepository chk ?base1 = Inr (digest_Repository d)"
    and c: "checkDigest (digest d)"
    by (auto simp: NewDigest_def Let_def split: if_splits sum.splits)
  show ?thesis
    using NewRepository_wf[OF r] NewRepository_no_at[OF r b1] c by simp
qed

lemma ParseReference_wf:
  "ParseReference chk s = Inr r \<Longrightarrow> wfReference chk r"
  by (auto simp: ParseReference_def split: sum.splits dest: NewTag_wf NewDigest_wf)


lemma NewRepository_fails_at:
  assumes "CHR ''@'' \<in> set name"
      and "CHR ''@'' \<notin> set (takeWhile (\<lambda>c. c \<noteq> CHR ''/'') name)"
  shows "NewRepository chk name = Inl ErrBadName"
proof (cases "CHR ''/'' \<in> set name")
  case False
  then have "takeWhile (\<lambda>c. c \<noteq> CHR ''/'') name = name"
    by auto
  with assms show ?thesis by simp
next
  case True
  then have l: "length (SplitN2 (CHR ''/'') name) = 2" by (simp add: SplitN2_def)
  have p0: "SplitN2 (CHR ''/'') name ! 0 = takeWhile (\<lambda>c. c \<noteq> CHR ''/'') name"
    using True by (simp add: SplitN2_def)
  have d: "name = SplitN2 (CHR ''/'') name ! 0 @ CHR ''/'' # SplitN2 (CHR ''/'') name ! 1"
    using SplitN2_decompose[OF l] by simp
  have "CHR ''@'' \<in> set (SplitN2 (CHR ''/'') name ! 0 @ CHR ''/'' # SplitN2 (CHR ''/'') name ! 1)"
    using assms(1) d by simp
  then have a1: "CHR ''@'' \<in> set (SplitN2 (CHR ''/'') name ! 1)"
    using assms(2) p0 by simp
  have n1: "\<not> checkRepository (SplitN2 (CHR ''/'') name ! 1)"
    using a1 checkRepository_no_delims by blast
  have n2: "\<not> checkRepository name"
    using assms(1) checkRepository_no_delims by blast
  show ?thesis
    using n1 n2 by (simp add: NewRepository_def Let_def)
qed

lemma NewTag_fails_at:
  assumes "CHR ''@'' \<in> set name"
      and "CHR ''@'' \<notin> set (takeWhile (\<lambda>c. c \<noteq> CHR ''/'') name)"
  shows "NewTag chk name = Inl ErrBadName"
proof -
  let ?parts = "Split (CHR '':'') name"
  let ?tagged = "1 < length ?parts \<and> CHR ''/'' \<notin> set (last ?parts)"
  show ?thesis
  proof (cases ?tagged)
    case False
    then show ?thesis
      using NewRepository_fails_at[OF assms, of chk] by (auto simp: NewTag_def Let_def)
  next
    case True
    let ?base = "Join (CHR '':'') (butlast ?parts)"
    let ?tag = "last ?parts"
    from True have d: "name = ?base @ CHR '':'' # ?tag"
      using Split_decompose[of "CHR '':''" name] by simp
    show ?thesis
    proof (cases "CHR ''@'' \<in> set ?tag")
      case True
      then have "?tag \<noteq> [] \<and> \<not> checkTag ?tag"
        using checkTag_no_delims by auto
      with \<open>?tagged\<close> show ?thesis by (simp add: NewTag_def Let_def)
    next
      case False
      have "CHR ''@'' \<in> set (?base @ CHR '':'' # ?tag)" using assms(1) d by simp
      with False have b: "CHR ''@'' \<in> set ?base" by simp
      have sl: "CHR ''/'' \<in> set ?base"
      proof (rule ccontr)
        assume n: "CHR ''/'' \<notin> set ?base"
        have "CHR ''/'' \<notin> set (?base @ CHR '':'' # ?tag)" using n True by simp
        then have "CHR ''/'' \<notin> set name" using d by simp
        then have "takeWhile (\<lambda>c. c \<noteq> CHR ''/'') name = name"
          by auto
        with assms show False by simp
      qed
      have "takeWhile (\<lambda>c. c \<noteq> CHR ''/'') (?base @ CHR '':'' # ?tag) =
          takeWhile (\<lambda>c. c \<noteq> CHR ''/'') ?base"
        using sl by simp
      then have "takeWhile (\<lambda>c. c \<noteq> CHR ''/'') name = takeWhile (\<lambda>c. c \<noteq> CHR ''/'') ?base"
        using d by simp
      with assms(2) have b2: "CHR ''@'' \<notin> set (takeWhile (\<lambda>c. c \<noteq> CHR ''/'') ?base)" by simp
      have "NewRepository chk ?base = Inl ErrBadName"
        by (rule NewRepository_fails_at[OF b b2])
      with \<open>?tagged\<close> show ?thesis by (simp add: NewTag_def Let_def)
    qed
  qed
qed


section \<open>Parsing a canonical name\<close>

lemma wfRepository_registry:
  assumes "authorityCheck chk" and "wfRepository chk repo"
  shows "explicitAuthority (registry (Registry repo)) \<and> CHR ''/'' \<notin> set (registry (Registry repo)) \<and>
         registry (Registry repo) \<noteq> defaultRegistryAlias \<and> chk (registry (Registry repo)) \<and>
         registry (Registry repo) \<noteq> []"
proof (cases "registry (Registry repo) = DefaultRegistry")
  case True
  then show ?thesis
    using assms(1) DefaultRegistry_explicit by (simp add: authorityCheck_def)
next
  case False
  then show ?thesis
    using assms(2) explicitAuthority_not_Nil by (auto simp: wfRepository_def)
qed

lemma defaultNamespace_chars: "list_all (\<lambda>r. r \<in> set repositoryChars) (defaultNamespace @ ''/'')"
  by (simp add: defaultNamespace_def repositoryChars_def)

lemma checkRepository_RepositoryStr:
  assumes "checkRepository (repository repo)" and "length (RepositoryStr repo) \<le> 255"
  shows "checkRepository (RepositoryStr repo)"
proof (cases "hasImplicitNamespace (repository repo) (Registry repo)")
  case False
  then show ?thesis using assms(1) by (simp add: RepositoryStr_def)
next
  case True
  then have e: "RepositoryStr repo = (defaultNamespace @ ''/'') @ repository repo"
    by (simp add: RepositoryStr_def)
  have "list_all (\<lambda>r. r \<in> set repositoryChars) (repository repo)" and "2 \<le> length (repository repo)"
    using assms(1) by (simp_all add: checkRepository_def checkElement_def)
  then have "list_all (\<lambda>r. r \<in> set repositoryChars) (RepositoryStr repo)"
    and "2 \<le> length (RepositoryStr repo)"
    unfolding e using defaultNamespace_chars by simp_all
  then show ?thesis using assms(2) by (simp add: checkRepository_def checkElement_def)
qed

lemma RepositoryStr_canonical:
  "RepositoryStr \<lparr>Registry = Registry repo, repository = RepositoryStr repo\<rparr> = RepositoryStr repo"
  by (simp add: RepositoryStr_def hasImplicitNamespace_def)

lemma Repository_Name_eq:
  "registry (Registry repo) \<noteq> [] \<Longrightarrow>
     Repository_Name repo = registry (Registry repo) @ CHR ''/'' # RepositoryStr repo"
  by (simp add: Repository_Name_def Registry_Name_def RegistryStr_def Let_def)

text \<open>The repository that the canonical name of a repository parses to.\<close>

lemma NewRepository_Repository_Name:
  assumes ac: "authorityCheck chk" and wf: "wfRepository chk repo"
      and len: "length (RepositoryStr repo) \<le> 255"
  shows "NewRepository chk (Repository_Name repo) =
           Inr \<lparr>Registry = Registry repo, repository = RepositoryStr repo\<rparr>"
proof -
  have r: "explicitAuthority (registry (Registry repo))" "CHR ''/'' \<notin> set (registry (Registry repo))"
    "registry (Registry repo) \<noteq> defaultRegistryAlias" "chk (registry (Registry repo))"
    "registry (Registry repo) \<noteq> []"
    using wfRepository_registry[OF ac wf] by simp_all
  have c: "checkRepository (RepositoryStr repo)"
    using wf len by (simp add: checkRepository_RepositoryStr wfRepository_def)
  have e: "\<lparr>registry = registry (Registry repo)\<rparr> = Registry repo" by simp
  show ?thesis
    using r c by (simp add: Repository_Name_eq NewRepository_explicit e)
qed

lemma RepositoryStr_no_colon:
  assumes "checkRepository (repository repo)"
  shows "CHR '':'' \<notin> set (RepositoryStr repo)"
  using assms checkRepository_no_delims[of "repository repo"]
  by (auto simp: RepositoryStr_def defaultNamespace_def)

lemma ParseReference_Tag_Name:
  assumes ac: "authorityCheck chk" and wf: "wfReference chk (TagReference t)"
      and len: "length (RepositoryStr (tag_Repository t)) \<le> 255"
  shows "ParseReference chk (Tag_Name t) =
           Inr (TagReference
             \<lparr>tag_Repository = \<lparr>Registry = Registry (tag_Repository t),
                                repository = RepositoryStr (tag_Repository t)\<rparr>,
              tag = tag t, tag_original = Tag_Name t\<rparr>)"
proof -
  have w: "wfRepository chk (tag_Repository t)" and ct: "checkTag (tag t)"
    using wf by simp_all
  have d: "CHR '':'' \<notin> set (tag t)" "CHR ''/'' \<notin> set (tag t)" "tag t \<noteq> []"
    using checkTag_no_delims[OF ct] by simp_all
  have n: "Tag_Name t = Repository_Name (tag_Repository t) @ CHR '':'' # tag t"
    by (simp add: Tag_Name_def TagStr_def)
  have "NewTag chk (Repository_Name (tag_Repository t) @ CHR '':'' # tag t) =
      Inr \<lparr>tag_Repository = \<lparr>Registry = Registry (tag_Repository t),
                                repository = RepositoryStr (tag_Repository t)\<rparr>,
          tag = tag t, tag_original = Repository_Name (tag_Repository t) @ CHR '':'' # tag t\<rparr>"
    using ct by (simp add: NewTag_tagged[OF d] NewRepository_Repository_Name[OF ac w len])
  then show ?thesis by (simp add: ParseReference_def n)
qed

lemma ParseReference_Digest_Name:
  assumes ac: "authorityCheck chk" and wf: "wfReference chk (DigestReference d)"
      and len: "length (RepositoryStr (digest_Repository d)) \<le> 255"
  shows "ParseReference chk (Digest_Name d) =
           Inr (DigestReference
             \<lparr>digest_Repository = \<lparr>Registry = Registry (digest_Repository d),
                                   repository = RepositoryStr (digest_Repository d)\<rparr>,
              digest = digest d, digest_original = Digest_Name d\<rparr>)"
proof -
  let ?repo = "digest_Repository d"
  let ?canon = "\<lparr>Registry = Registry ?repo, repository = RepositoryStr ?repo\<rparr>"
  let ?X = "Repository_Name ?repo"
  have w: "wfRepository chk ?repo" and cd: "checkDigest (digest d)"
    and ra: "CHR ''@'' \<notin> set (registry (Registry ?repo))"
    using wf by simp_all
  have cr: "checkRepository (repository ?repo)" using w by (simp add: wfRepository_def)
  have r: "CHR ''/'' \<notin> set (registry (Registry ?repo))" "registry (Registry ?repo) \<noteq> []"
    using wfRepository_registry[OF ac w] by simp_all
  have xe: "?X = registry (Registry ?repo) @ CHR ''/'' # RepositoryStr ?repo"
    using r by (simp add: Repository_Name_eq)
  have xa: "CHR ''@'' \<notin> set ?X"
    using cr ra by (rule Repository_Name_no_at)
  have da: "CHR ''@'' \<notin> set (digest d)" using checkDigest_no_delims[OF cd] by simp
  have n: "Digest_Name d = ?X @ CHR ''@'' # digest d"
    by (simp add: Digest_Name_def DigestStr_def)
  have tw: "takeWhile (\<lambda>c. c \<noteq> CHR ''/'') (?X @ CHR ''@'' # digest d) = registry (Registry ?repo)"
    using takeWhile_sep[OF r(1)] by (simp add: xe)
  have nt: "NewTag chk (?X @ CHR ''@'' # digest d) = Inl ErrBadName"
    by (rule NewTag_fails_at) (simp_all add: tw ra)
  have sp: "Split (CHR ''@'') (?X @ CHR ''@'' # digest d) = [?X, digest d]"
    by (simp add: Split_append_sep Split_no_sep[OF xa] Split_no_sep[OF da])
  have nr: "NewRepository chk ?X = Inr ?canon"
    by (rule NewRepository_Repository_Name[OF ac w len])
  have "NewTag chk (registry (Registry ?repo) @ CHR ''/'' # RepositoryStr ?repo) =
      Inr \<lparr>tag_Repository = ?canon, tag = defaultTag,
          tag_original = registry (Registry ?repo) @ CHR ''/'' # RepositoryStr ?repo\<rparr>"
    using nr by (simp add: NewTag_untagged[OF RepositoryStr_no_colon[OF cr]] xe)
  then have t: "NewTag chk ?X =
      Inr \<lparr>tag_Repository = ?canon, tag = defaultTag, tag_original = ?X\<rparr>"
    by (simp add: xe)
  have cn: "Repository_Name ?canon = ?X"
    using r by (simp add: Repository_Name_eq RepositoryStr_canonical)
  have "NewDigest chk (?X @ CHR ''@'' # digest d) =
      Inr \<lparr>digest_Repository = ?canon, digest = digest d,
          digest_original = ?X @ CHR ''@'' # digest d\<rparr>"
    unfolding NewDigest_def sp Let_def using cd t cn nr by simp
  then show ?thesis using nt by (simp add: ParseReference_def n)
qed


section \<open>The destination of a well-formed reference\<close>

lemma ReplaceAll_colon_tagChar:
  "c \<in> set digestChars \<Longrightarrow> (if c = CHR '':'' then CHR ''_'' else c) \<in> set tagChars"
  by (auto simp: digestChars_def tagChars_def)

lemma checkTag_ReplaceAll_colon:
  assumes "checkDigest d"
  shows "checkTag (ReplaceAll_colon d)"
proof -
  define f where "f = (\<lambda>c. if c = CHR '':'' then CHR ''_'' else c)"
  have c: "\<forall>c\<in>set d. c \<in> set digestChars" and l: "length d = 71"
    using assms by (auto simp: checkDigest_def checkElement_def list_all_iff)
  have "\<forall>c\<in>set d. f c \<in> set tagChars"
    using c ReplaceAll_colon_tagChar unfolding f_def by blast
  then have "list_all (\<lambda>r. r \<in> set tagChars) (map f d)"
    by (simp add: list_all_iff)
  moreover have "ReplaceAll_colon d = map f d"
    by (simp add: ReplaceAll_colon_def f_def)
  ultimately show ?thesis
    using l by (simp add: checkTag_def checkElement_def)
qed

lemma checkTag_newTag: "wfReference chk src \<Longrightarrow> checkTag (newTag src)"
  by (cases src) (simp_all add: TagStr_def DigestStr_def checkTag_ReplaceAll_colon)

lemma toDestinationImage_eq:
  assumes "wfReference chk src"
  shows "toDestinationImage chk src dst =
           (case NewRepository chk (RegistryStr dst @ CHR ''/'' # newRepository src) of
              Inl e \<Rightarrow> Inl e
            | Inr repo \<Rightarrow>
                Inr \<lparr>tag_Repository = repo, tag = newTag src,
                     tag_original =
                       RegistryStr dst @ ''/'' @ newRepository src @ '':'' @ newTag src\<rparr>)"
proof -
  have t: "checkTag (newTag src)" using assms by (rule checkTag_newTag)
  then have d: "CHR '':'' \<notin> set (newTag src)" "CHR ''/'' \<notin> set (newTag src)" "newTag src \<noteq> []"
    using checkTag_no_delims by blast+
  have "toDestinationImage chk src dst =
      NewTag chk ((RegistryStr dst @ CHR ''/'' # newRepository src) @ CHR '':'' # newTag src)"
    by (simp add: toDestinationImage_def)
  also have "\<dots> = (case NewRepository chk (RegistryStr dst @ CHR ''/'' # newRepository src) of
              Inl e \<Rightarrow> Inl e
            | Inr repo \<Rightarrow>
                Inr \<lparr>tag_Repository = repo, tag = newTag src,
                     tag_original =
                       (RegistryStr dst @ CHR ''/'' # newRepository src) @ CHR '':'' # newTag src\<rparr>)"
    using NewTag_tagged[OF d, of chk "RegistryStr dst @ CHR ''/'' # newRepository src"] t
    by (simp only: if_not_P not_not)
  finally show ?thesis by (simp split: sum.splits)
qed

lemma newRepository_slash: "CHR ''/'' \<in> set (newRepository src)"
  by (simp add: newRepository_def)

lemma RepositoryStr_slash:
  "CHR ''/'' \<in> set P \<Longrightarrow> RepositoryStr \<lparr>Registry = reg, repository = P\<rparr> = P"
  by (simp add: RepositoryStr_def hasImplicitNamespace_def)

text \<open>A registry as \<open>NewRegistry\<close> builds it, under a check that behaves like the one
  of \<open>net/url\<close>.\<close>

lemma NewRegistry_valid:
  assumes "authorityCheck chk" and "NewRegistry chk b = Inr dst"
  shows "chk (registry dst) \<and> CHR ''/'' \<notin> set (registry dst) \<and>
         registry dst \<noteq> defaultRegistryAlias \<and> registry dst \<noteq> []"
  using assms DefaultRegistry_explicit
  by (auto simp: NewRegistry_Inr authorityCheck_def split: if_splits)

lemma toDestinationImage_explicit:
  assumes ac: "authorityCheck chk"
      and dst: "NewRegistry chk b = Inr dst"
      and ex: "explicitAuthority (RegistryStr dst)"
      and wf: "wfReference chk src"
  shows "toDestinationImage chk src dst =
           (if checkRepository (newRepository src)
            then Inr \<lparr>tag_Repository = \<lparr>Registry = dst, repository = newRepository src\<rparr>,
                      tag = newTag src,
                      tag_original =
                        RegistryStr dst @ ''/'' @ newRepository src @ '':'' @ newTag src\<rparr>
            else Inl ErrBadName)"
proof -
  have v: "chk (registry dst)" "CHR ''/'' \<notin> set (registry dst)"
    "registry dst \<noteq> defaultRegistryAlias"
    using NewRegistry_valid[OF ac dst] by simp_all
  have ex': "explicitAuthority (registry dst)" using ex by (simp add: RegistryStr_def)
  have d: "\<lparr>registry = registry dst\<rparr> = dst" by simp
  show ?thesis
    using v
    by (simp add: toDestinationImage_eq[OF wf] RegistryStr_def
        NewRepository_explicit[OF v(2) ex'] d)
qed

lemma Tag_Name_destination:
  assumes "registry dst \<noteq> []"
  shows "Tag_Name \<lparr>tag_Repository = \<lparr>Registry = dst, repository = newRepository src\<rparr>,
                  tag = T, tag_original = orig\<rparr> =
         RegistryStr dst @ ''/'' @ newRepository src @ '':'' @ T"
  using assms
  by (simp add: Tag_Name_def Repository_Name_def Registry_Name_def RegistryStr_def TagStr_def
      Let_def RepositoryStr_slash[OF newRepository_slash])


lemma hostPort_no_slash: "hostPort s \<Longrightarrow> CHR ''/'' \<notin> set s"
proof
  assume h: "hostPort s" and m: "CHR ''/'' \<in> set s"
  let ?host = "takeWhile (\<lambda>c. c \<noteq> CHR '':'') s"
  let ?port = "dropWhile (\<lambda>c. c \<noteq> CHR '':'') s"
  from h have a: "\<forall>c\<in>set ?host. c \<in> set ''abcdefghijklmnopqrstuvwxyzABCDEFGHIJKLMNOPQRSTUVWXYZ0123456789.-''"
    and b: "?port = [] \<or> (\<forall>c\<in>set (tl ?port). c \<in> set ''0123456789'')"
    by (simp_all add: hostPort_def Let_def list_all_iff)
  have "set s = set ?host \<union> set ?port"
    using set_append[of ?host ?port] by simp
  with m have "CHR ''/'' \<in> set ?host \<or> CHR ''/'' \<in> set ?port" by simp
  then show False
  proof
    assume "CHR ''/'' \<in> set ?host"
    with a have "CHR ''/'' \<in> set ''abcdefghijklmnopqrstuvwxyzABCDEFGHIJKLMNOPQRSTUVWXYZ0123456789.-''"
      by blast
    then show False by simp
  next
    assume p: "CHR ''/'' \<in> set ?port"
    then have ne: "?port \<noteq> []" by (metis empty_iff list.set(1))
    have "hd ?port = CHR '':''" using hd_dropWhile[OF ne] by simp
    with ne p have "CHR ''/'' \<in> set (tl ?port)" by (cases ?port) auto
    with b ne have "CHR ''/'' \<in> set ''0123456789''" by blast
    then show False by simp
  qed
qed

lemma authorityCheck_hostPort: "authorityCheck hostPort"
proof -
  have "hostPort DefaultRegistry" by code_simp
  then show ?thesis using hostPort_no_slash by (simp add: authorityCheck_def)
qed

lemma nginx_example:
  assumes "chk []" and "chk ''10.96.0.11:5001''"
  shows "ParseReference chk ''nginx'' = Inr nginxRef"
    and "NewRegistry chk ''10.96.0.11:5001'' = Inr backup0"
    and "toDestinationImage chk nginxRef backup0 = Inr nginxMirror"
    and "Tag_Name nginxMirror = ''10.96.0.11:5001/index_docker_io/library/nginx:latest''"
proof -
  show "ParseReference chk ''nginx'' = Inr nginxRef"
    using assms(1)
    by (simp add: ParseReference_def NewTag_def NewRepository_def NewRegistry_def SplitN2_def Let_def
      checkRepository_def checkElement_def repositoryChars_def defaultTag_def DefaultRegistry_def
      defaultRegistryAlias_def nginxRef_def)
  show "NewRegistry chk ''10.96.0.11:5001'' = Inr backup0"
    using assms(2) by (simp add: NewRegistry_def Let_def backup0_def defaultRegistryAlias_def)
  show "toDestinationImage chk nginxRef backup0 = Inr nginxMirror"
    using assms(2)
    by (simp add: toDestinationImage_def newRepository_def registryReplacer_def nginxRef_def backup0_def
      RegistryStr_def RepositoryStr_def hasImplicitNamespace_def DefaultRegistry_def defaultNamespace_def
      TagStr_def NewTag_def NewRepository_def NewRegistry_def SplitN2_def Let_def
      checkRepository_def checkElement_def repositoryChars_def checkTag_def tagChars_def
      defaultRegistryAlias_def nginxMirror_def)
  show "Tag_Name nginxMirror = ''10.96.0.11:5001/index_docker_io/library/nginx:latest''"
    by (simp add: nginxMirror_def backup0_def Tag_Name_def Repository_Name_def Registry_Name_def
        RegistryStr_def RepositoryStr_def hasImplicitNamespace_def TagStr_def Let_def)
qed

lemma newTag_cases:
  "newTag srcImg =
     (case srcImg of
        TagReference x \<Rightarrow> TagStr x
      | DigestReference d \<Rightarrow> map (\<lambda>c. if c = CHR '':'' then CHR ''_'' else c) (DigestStr d))"
  by (cases srcImg) (simp_all add: ReplaceAll_colon_def)

lemma RepositoryStr_chars:
  assumes "checkRepository (repository repo)"
  shows "list_all (\<lambda>r. r \<in> set repositoryChars) (RepositoryStr repo) \<and> RepositoryStr repo \<noteq> []"
proof -
  have "list_all (\<lambda>r. r \<in> set repositoryChars) (repository repo)" and "repository repo \<noteq> []"
    using assms by (auto simp: checkRepository_def checkElement_def)
  then show ?thesis
    using defaultNamespace_chars by (simp add: RepositoryStr_def)
qed

lemma slash_repositoryChar: "CHR ''/'' \<in> set repositoryChars"
  by (simp add: repositoryChars_def)

lemma checkRepository_newRepository:
  assumes "wfReference chk srcImg"
  shows "checkRepository (newRepository srcImg) \<longleftrightarrow>
           length (newRepository srcImg) \<le> 255 \<and>
           list_all (\<lambda>r. r \<in> set repositoryChars)
             (registryReplacer (RegistryStr (Registry (Reference_Context srcImg))))"
proof -
  have "checkRepository (repository (Reference_Context srcImg))"
    using assms by (cases srcImg) (simp_all add: wfRepository_def)
  then have "list_all (\<lambda>r. r \<in> set repositoryChars) (RepositoryStr (Reference_Context srcImg))"
    and "RepositoryStr (Reference_Context srcImg) \<noteq> []"
    using RepositoryStr_chars by blast+
  moreover from this(2) have "2 \<le> length (newRepository srcImg)"
    by (cases "RepositoryStr (Reference_Context srcImg)") (simp_all add: newRepository_def)
  ultimately show ?thesis
    using slash_repositoryChar
    by (auto simp: checkRepository_def checkElement_def newRepository_def)
qed

lemma imageReference_canonical_tag:
  "imageReference (TagReference
             \<lparr>tag_Repository = \<lparr>Registry = Registry (tag_Repository t),
                                repository = RepositoryStr (tag_Repository t)\<rparr>,
              tag = tag t, tag_original = orig\<rparr>) = imageReference (TagReference t)"
  by (simp add: RepositoryStr_canonical TagStr_def)

lemma imageReference_canonical_digest:
  "imageReference (DigestReference
             \<lparr>digest_Repository = \<lparr>Registry = Registry (digest_Repository d),
                                   repository = RepositoryStr (digest_Repository d)\<rparr>,
              digest = digest d, digest_original = orig\<rparr>) = imageReference (DigestReference d)"
  by (simp add: RepositoryStr_canonical DigestStr_def)


section \<open>Serialising and parsing again\<close>

text \<open>
  C4, amended. For an authority check as above and every string \<open>s\<close> that parses to a
  reference \<open>x\<close> whose repository path (with the implicit \<open>library/\<close> of Docker Hub) is
  at most 255 bytes long, the serialised form of \<open>x\<close> parses, and it parses to the
  registry, repository path and identifier of \<open>x\<close>: \<open>parse (serialize x) = x\<close> as
  specification references, which is also \<open>parse s\<close>. Every reference that parsing can
  return is such an \<open>x\<close> for some \<open>s\<close>.
\<close>

theorem parse_serialize_roundtrip:
  assumes "authorityCheck chk" and "ParseReference chk s = Inr x"
      and "length (RepositoryStr (Reference_Context x)) \<le> 255"
  shows "parse chk (serialize x) = Inr (imageReference x) \<and> parse chk (serialize x) = parse chk s"
proof -
  have wf: "wfReference chk x" using assms(2) by (rule ParseReference_wf)
  have "parse chk (serialize x) = Inr (imageReference x)"
  proof (cases x)
    case (TagReference t)
    with wf assms(3) show ?thesis
      using ParseReference_Tag_Name[OF assms(1), of t]
      by (simp add: parse_def serialize_def imageReference_canonical_tag del: imageReference.simps)
  next
    case (DigestReference d)
    with wf assms(3) show ?thesis
      using ParseReference_Digest_Name[OF assms(1), of d]
      by (simp add: parse_def serialize_def imageReference_canonical_digest del: imageReference.simps)
  qed
  then show ?thesis using assms(2) by (simp add: parse_def)
qed

theorem parse_serialize_roundtrip_witness:
  "authorityCheck hostPort \<and> ParseReference hostPort ''nginx'' = Inr nginxRef \<and>
   length (RepositoryStr (Reference_Context nginxRef)) \<le> 255 \<and>
   serialize nginxRef = ''index.docker.io/library/nginx:latest'' \<and>
   parse hostPort (serialize nginxRef) =
     Inr \<lparr>ref_registry = ''index.docker.io'', ref_repository = ''library/nginx'',
          ref_identifier = TagIdentifier ''latest''\<rparr> \<and>
   parse hostPort (serialize nginxRef) = parse hostPort ''nginx''"
proof -
  have p: "ParseReference hostPort ''nginx'' = Inr nginxRef" by code_simp
  have l: "length (RepositoryStr (Reference_Context nginxRef)) \<le> 255" by code_simp
  have s: "serialize nginxRef = ''index.docker.io/library/nginx:latest''" by code_simp
  have i: "imageReference nginxRef =
     \<lparr>ref_registry = ''index.docker.io'', ref_repository = ''library/nginx'',
          ref_identifier = TagIdentifier ''latest''\<rparr>" by code_simp
  have a: "parse hostPort (serialize nginxRef) = Inr (imageReference nginxRef)"
    and b: "parse hostPort (serialize nginxRef) = parse hostPort ''nginx''"
    using parse_serialize_roundtrip[OF authorityCheck_hostPort p l] by blast+
  have a': "parse hostPort (serialize nginxRef) =
     Inr \<lparr>ref_registry = ''index.docker.io'', ref_repository = ''library/nginx'',
          ref_identifier = TagIdentifier ''latest''\<rparr>"
    using a by (simp only: i)
  show ?thesis
    by (intro conjI) (fact authorityCheck_hostPort p l s a' b)+
qed


text \<open>
  C4 as it is stated, for every string that parses, fails: a repository name of 250
  bytes without a registry parses (to a Docker Hub reference), but its serialised form
  carries the repository path \<open>library/\<close> followed by the name, 258 bytes, which
  \<open>checkRepository\<close> rejects, so the serialised form does not parse.
\<close>

theorem parse_serialize_roundtrip_counterexample:
  "ParseReference hostPort longName = Inr longRef \<and>
   parse hostPort longName =
     Inr \<lparr>ref_registry = ''index.docker.io'', ref_repository = ''library/'' @ longName,
          ref_identifier = TagIdentifier ''latest''\<rparr> \<and>
   parse hostPort (serialize longRef) = Inl ErrBadName \<and>
   parse hostPort (serialize longRef) \<noteq> parse hostPort longName"
  by code_simp


section \<open>The destination reference\<close>

text \<open>
  What \<open>toDestinationImage\<close> returns in a backup registry whose authority contains a
  \<open>.\<close> or a \<open>:\<close>. For an authority check as above, a source reference that
  \<open>ParseReference\<close> returns and such a backup registry built by \<open>NewRegistry\<close>: when the
  source's registry authority with every \<open>.\<close> and \<open>:\<close> replaced by \<open>_\<close>, then \<open>/\<close>,
  then the source's repository path passes \<open>checkRepository\<close>, the destination is
  returned; its registry is the backup registry, its repository path is that string, its
  tag is the source's tag, or the source's digest with \<open>:\<close> replaced by \<open>_\<close>, and it
  serialises to these three joined by \<open>/\<close> and \<open>:\<close>.
\<close>

lemma destination_in_backup_registry:
  assumes ac: "authorityCheck chk"
      and src: "ParseReference chk s = Inr srcImg"
      and dst: "NewRegistry chk b = Inr dstRegistry"
      and ex: "explicitAuthority (RegistryStr dstRegistry)"
      and ok: "checkRepository
                 (map (\<lambda>c. if c = CHR ''.'' \<or> c = CHR '':'' then CHR ''_'' else c)
                    (RegistryStr (Registry (Reference_Context srcImg))) @
                  ''/'' @ RepositoryStr (Reference_Context srcImg))"
  shows "\<exists>dstImg. toDestinationImage chk srcImg dstRegistry = Inr dstImg \<and>
           Registry (tag_Repository dstImg) = dstRegistry \<and>
           RepositoryStr (tag_Repository dstImg) =
             map (\<lambda>c. if c = CHR ''.'' \<or> c = CHR '':'' then CHR ''_'' else c)
               (RegistryStr (Registry (Reference_Context srcImg))) @
             ''/'' @ RepositoryStr (Reference_Context srcImg) \<and>
           TagStr dstImg =
             (case srcImg of
                TagReference x \<Rightarrow> TagStr x
              | DigestReference d \<Rightarrow>
                  map (\<lambda>c. if c = CHR '':'' then CHR ''_'' else c) (DigestStr d)) \<and>
           Tag_Name dstImg =
             RegistryStr dstRegistry @ ''/'' @ RepositoryStr (tag_Repository dstImg) @ '':'' @
             TagStr dstImg"
proof -
  have wf: "wfReference chk srcImg" using src by (rule ParseReference_wf)
  have ne: "registry dstRegistry \<noteq> []" using NewRegistry_valid[OF ac dst] by simp
  have nr: "newRepository srcImg =
      map (\<lambda>c. if c = CHR ''.'' \<or> c = CHR '':'' then CHR ''_'' else c)
        (RegistryStr (Registry (Reference_Context srcImg))) @
      ''/'' @ RepositoryStr (Reference_Context srcImg)"
    by (simp add: newRepository_def registryReplacer_def)
  let ?t = "\<lparr>tag_Repository = \<lparr>Registry = dstRegistry, repository = newRepository srcImg\<rparr>,
       tag = newTag srcImg,
       tag_original = RegistryStr dstRegistry @ ''/'' @ newRepository srcImg @ '':'' @ newTag srcImg\<rparr>"
  have c: "checkRepository (newRepository srcImg)" using ok by (simp only: nr)
  have t: "toDestinationImage chk srcImg dstRegistry = Inr ?t"
    using c by (simp add: toDestinationImage_explicit[OF ac dst ex wf])
  have r: "RepositoryStr (tag_Repository ?t) = newRepository srcImg"
    by (simp add: RepositoryStr_slash[OF newRepository_slash])
  have g: "TagStr ?t = newTag srcImg" by (simp add: TagStr_def)
  have n: "Tag_Name ?t = RegistryStr dstRegistry @ ''/'' @ newRepository srcImg @ '':'' @ newTag srcImg"
    by (rule Tag_Name_destination[OF ne])
  have "Registry (tag_Repository ?t) = dstRegistry \<and>
           RepositoryStr (tag_Repository ?t) =
             map (\<lambda>c. if c = CHR ''.'' \<or> c = CHR '':'' then CHR ''_'' else c)
               (RegistryStr (Registry (Reference_Context srcImg))) @
             ''/'' @ RepositoryStr (Reference_Context srcImg) \<and>
           TagStr ?t =
             (case srcImg of
                TagReference x \<Rightarrow> TagStr x
              | DigestReference d \<Rightarrow>
                  map (\<lambda>c. if c = CHR '':'' then CHR ''_'' else c) (DigestStr d)) \<and>
           Tag_Name ?t =
             RegistryStr dstRegistry @ ''/'' @ RepositoryStr (tag_Repository ?t) @ '':'' @
             TagStr ?t"
    by (simp only: r g n) (simp add: nr newTag_cases)
  with t show ?thesis by blast
qed

text \<open>For the source \<open>nginx\<close> and the backup registry \<open>10.96.0.11:5001\<close>, both
  accepted by the check, the destination is
  \<open>10.96.0.11:5001/index_docker_io/library/nginx:latest\<close>.\<close>

lemma destination_nginx:
  assumes "chk []" and "chk ''10.96.0.11:5001''"
  shows "ParseReference chk ''nginx'' = Inr nginxRef \<and>
         NewRegistry chk ''10.96.0.11:5001'' = Inr backup0 \<and>
         map_sum id Tag_Name (toDestinationImage chk nginxRef backup0) =
           Inr ''10.96.0.11:5001/index_docker_io/library/nginx:latest''"
  by (simp add: nginx_example[OF assms])

text \<open>
  C2. The destination of a source reference is to have the backup registry as its
  registry and, as its repository path, the sanitized source registry, \<open>/\<close> and the
  source's repository path; so does the comment on \<open>toDestinationImage\<close> say
  (\<open>nginx -> <dstRegistry>/index_docker_io/library/nginx:latest\<close>, a tag "in our backup
  registry"). The code departs from it for a backup registry whose authority has neither
  a \<open>.\<close> nor a \<open>:\<close>. For the backup registry \<open>localhost\<close>, which \<open>NewRegistry\<close>
  accepts, and the source \<open>nginx\<close>, \<open>toDestinationImage\<close> hands the string
  \<open>localhost/index_docker_io/library/nginx:latest\<close> to \<open>name.NewTag\<close>, which reads
  \<open>localhost\<close> as a segment of a Docker Hub repository: the tag returned has the
  registry \<open>index.docker.io\<close> and the repository path
  \<open>localhost/index_docker_io/library/nginx\<close>.
\<close>

theorem destination_outside_backup_registry:
  "NewRegistry hostPort ''localhost'' = Inr localhost0 \<and>
   ParseReference hostPort ''nginx'' = Inr nginxRef \<and>
   toDestinationImage hostPort nginxRef localhost0 = Inr localMirror \<and>
   Registry (tag_Repository localMirror) = \<lparr>registry = ''index.docker.io''\<rparr> \<and>
   Registry (tag_Repository localMirror) \<noteq> localhost0 \<and>
   RepositoryStr (tag_Repository localMirror) = ''localhost/index_docker_io/library/nginx'' \<and>
   RepositoryStr (tag_Repository localMirror) \<noteq> ''index_docker_io/library/nginx'' \<and>
   Tag_Name localMirror = ''index.docker.io/localhost/index_docker_io/library/nginx:latest''"
  by code_simp

section \<open>When the destination exists\<close>

text \<open>
  C5, amended. \<open>toDestinationImage\<close> is a function of the source reference and the backup
  registry alone (and of the authority check, which is fixed), so equal inputs give equal
  results; but it is partial. For an authority check as above, a source reference that
  \<open>ParseReference\<close> returns and a backup registry built by \<open>NewRegistry\<close> whose authority
  contains a \<open>.\<close> or a \<open>:\<close>, it returns the destination reference when the new
  repository path passes \<open>checkRepository\<close>, and the error of \<open>name.NewTag\<close> otherwise.
  The new repository path passes exactly when it is at most 255 bytes long and the source's
  registry authority, after the replacement, consists of the characters
  \<open>a-z 0-9 _ - . /\<close>.
\<close>

theorem destination_partial:
  assumes "authorityCheck chk" and "ParseReference chk s = Inr srcImg"
      and "NewRegistry chk b = Inr dstRegistry" and "explicitAuthority (RegistryStr dstRegistry)"
  shows "toDestinationImage chk srcImg dstRegistry =
           (if checkRepository (newRepository srcImg)
            then Inr \<lparr>tag_Repository = \<lparr>Registry = dstRegistry, repository = newRepository srcImg\<rparr>,
                      tag = newTag srcImg,
                      tag_original =
                        RegistryStr dstRegistry @ ''/'' @ newRepository srcImg @ '':'' @ newTag srcImg\<rparr>
            else Inl ErrBadName) \<and>
         (checkRepository (newRepository srcImg) \<longleftrightarrow>
            length (newRepository srcImg) \<le> 255 \<and>
            list_all (\<lambda>r. r \<in> set repositoryChars)
              (registryReplacer (RegistryStr (Registry (Reference_Context srcImg)))))"
proof -
  have wf: "wfReference chk srcImg" using assms(2) by (rule ParseReference_wf)
  show ?thesis
    using toDestinationImage_explicit[OF assms(1) assms(3) assms(4) wf]
      checkRepository_newRepository[OF wf] by simp
qed

theorem destination_partial_witness:
  "authorityCheck hostPort \<and> ParseReference hostPort ''nginx'' = Inr nginxRef \<and>
   NewRegistry hostPort ''10.96.0.11:5001'' = Inr backup0 \<and>
   explicitAuthority (RegistryStr backup0) \<and>
   checkRepository (newRepository nginxRef) \<and>
   toDestinationImage hostPort nginxRef backup0 =
     Inr \<lparr>tag_Repository = \<lparr>Registry = backup0, repository = newRepository nginxRef\<rparr>,
          tag = newTag nginxRef,
          tag_original = RegistryStr backup0 @ ''/'' @ newRepository nginxRef @ '':'' @ newTag nginxRef\<rparr>"
proof -
  have p: "ParseReference hostPort ''nginx'' = Inr nginxRef" by code_simp
  have r: "NewRegistry hostPort ''10.96.0.11:5001'' = Inr backup0" by code_simp
  have e: "explicitAuthority (RegistryStr backup0)" by code_simp
  have c: "checkRepository (newRepository nginxRef)" by code_simp
  show ?thesis
    using destination_partial[OF authorityCheck_hostPort p r e] authorityCheck_hostPort p r e c
    by simp
qed


text \<open>
  C5 as it is stated fails, the error branch is reached: for the source reference of a
  repository name of 250 bytes the new repository path \<open>index_docker_io/library/...\<close>
  is longer than 255 bytes. It is also reached for a registry authority with an
  upper-case letter, which stays in the new repository path.
\<close>

theorem destination_partial_counterexample:
  "ParseReference hostPort longName = Inr longRef \<and>
   NewRegistry hostPort ''10.96.0.11:5001'' = Inr backup0 \<and>
   toDestinationImage hostPort longRef backup0 = Inl ErrBadName"
  by code_simp

lemma destination_uppercase_registry:
  "ParseReference hostPort ''Registry.Example.com/app:v1'' =
     Inr (TagReference
       \<lparr>tag_Repository = \<lparr>Registry = \<lparr>registry = ''Registry.Example.com''\<rparr>, repository = ''app''\<rparr>,
        tag = ''v1'', tag_original = ''Registry.Example.com/app:v1''\<rparr>) \<and>
   toDestinationImage hostPort
     (TagReference
       \<lparr>tag_Repository = \<lparr>Registry = \<lparr>registry = ''Registry.Example.com''\<rparr>, repository = ''app''\<rparr>,
        tag = ''v1'', tag_original = ''Registry.Example.com/app:v1''\<rparr>) backup0 = Inl ErrBadName"
  by code_simp


section \<open>The container loop and the reconcilers: basic facts\<close>

lemma reconcileContainers_frame:
  "reconcileContainers chk c w cs = (e, cs', w') \<Longrightarrow> w' = w\<lparr>copies := copies w'\<rparr>"
proof (induction cs arbitrary: w e cs' w')
  case Nil
  then show ?case by simp
next
  case (Cons x xs)
  show ?case
  proof (cases "ParseReference chk (Image x)")
    case (Inl err)
    with Cons.prems show ?thesis by auto
  next
    case (Inr src)
    show ?thesis
    proof (cases "Registry (Reference_Context src) = BackupRegistry c")
      case True
      obtain e1 r1 w1 where r: "reconcileContainers chk c w xs = (e1, r1, w1)"
        by (cases "reconcileContainers chk c w xs") auto
      from Cons.prems Inr True r have "w' = w1" by simp
      with Cons.IH[OF r] show ?thesis by simp
    next
      case False
      show ?thesis
      proof (cases "toDestinationImage chk src (BackupRegistry c)")
        case (Inl err)
        with Cons.prems \<open>ParseReference chk (Image x) = Inr src\<close> False show ?thesis by auto
      next
        case (Inr dst)
        let ?w1 = "w\<lparr>copies := copies w @ [(Reference_Name src, Tag_Name dst)]\<rparr>"
        show ?thesis
        proof (cases "transfer w (copies w) (Reference_Name src) (Tag_Name dst)")
          case False
          with Cons.prems \<open>ParseReference chk (Image x) = Inr src\<close>
            \<open>Registry (Reference_Context src) \<noteq> BackupRegistry c\<close> Inr
          show ?thesis by (auto simp: Let_def)
        next
          case True
          obtain e1 r1 w1 where r: "reconcileContainers chk c ?w1 xs = (e1, r1, w1)"
            by (cases "reconcileContainers chk c ?w1 xs") auto
          from Cons.prems \<open>ParseReference chk (Image x) = Inr src\<close>
            \<open>Registry (Reference_Context src) \<noteq> BackupRegistry c\<close> Inr True r
          have "w' = w1" by (simp add: Let_def)
          with Cons.IH[OF r] show ?thesis by simp
        qed
      qed
    qed
  qed
qed

lemma reconcileContainers_images_only:
  "reconcileContainers chk c w cs = (e, cs', w') \<Longrightarrow>
     map (\<lambda>x. x\<lparr>Image := []\<rparr>) cs' = map (\<lambda>x. x\<lparr>Image := []\<rparr>) cs"
  by (induction cs arbitrary: w e cs' w')
     (auto simp: Let_def split: sum.splits if_splits prod.splits)

lemma reconcileContainers_append:
  "reconcileContainers chk c w pre = (None, pre', w1) \<Longrightarrow>
     reconcileContainers chk c w (pre @ ys) =
       (case reconcileContainers chk c w1 ys of (e, ys', w') \<Rightarrow> (e, pre' @ ys', w'))"
  by (induction pre arbitrary: w pre' w1)
     (auto simp: Let_def split: sum.splits if_splits prod.splits)

lemma reconcileContainers_skip:
  "alreadyMirrored chk c x \<Longrightarrow>
     reconcileContainers chk c w (x # rest) =
       (case reconcileContainers chk c w rest of (e, rest', w') \<Rightarrow> (e, x # rest', w'))"
  by (auto simp: alreadyMirrored_def split: sum.splits)

lemma reconcileContainers_all_mirrored:
  "list_all (alreadyMirrored chk c) cs \<Longrightarrow> reconcileContainers chk c w cs = (None, cs, w)"
proof (induction cs)
  case Nil
  show ?case by simp
next
  case (Cons x xs)
  then have "alreadyMirrored chk c x" and "reconcileContainers chk c w xs = (None, xs, w)"
    by simp_all
  then show ?case by (simp only: reconcileContainers_skip prod.case)
qed

lemma reconcileContainers_parse_fails:
  "ParseReference chk (Image x) = Inl perr \<Longrightarrow>
     reconcileContainers chk c w (x # post) = (Some (FailedParsingImage (Image x) perr), x # post, w)"
  by simp

lemma reconcileContainers_transfer_fails:
  "ParseReference chk (Image x) = Inr src \<Longrightarrow>
   Registry (Reference_Context src) \<noteq> BackupRegistry c \<Longrightarrow>
   toDestinationImage chk src (BackupRegistry c) = Inr dst \<Longrightarrow>
   \<not> transfer w (copies w) (Reference_Name src) (Tag_Name dst) \<Longrightarrow>
     reconcileContainers chk c w (x # post) =
       (Some (ErrorCopyingImage (Reference_Name src) (Tag_Name dst)), x # post,
        w\<lparr>copies := copies w @ [(Reference_Name src, Tag_Name dst)]\<rparr>)"
  by (simp add: Let_def)

lemma Reconcile_unfold:
  "Reconcile k chk c w req =
     (case reader w (k, req) of
        Inl err \<Rightarrow>
          if err = IsNotFound then (None, w) else (Some (ErrorReadingObject err), w)
      | Inr obj \<Rightarrow>
          (case reconcilePodTemplate chk c w (Spec_Template obj) of
             (Some err, template, w1) \<Rightarrow>
               (Some err,
                w1\<lparr>events := events w1 @ [warningEvent k (obj\<lparr>Spec_Template := template\<rparr>) err]\<rparr>)
           | (None, template, w1) \<Rightarrow>
               if obj \<noteq> obj\<lparr>Spec_Template := template\<rparr>
               then Patch w1 k (obj\<lparr>Spec_Template := template\<rparr>) obj
               else (None, w1)))"
  by (induct k) (simp_all add: ReconcileDeployment_def ReconcileDaemonSet_def Let_def split: sum.splits)

lemma Reconcile_rewrite_error:
  assumes "reader w (k, req) = Inr obj"
      and "reconcileContainers chk c w (Spec_Containers (Spec_Template obj)) = (Some e, cs', w2)"
  shows "\<exists>w'. Reconcile k chk c w req = (Some e, w') \<and> stored w' = stored w \<and>
           patches w' = patches w \<and> copies w' = copies w2"
proof -
  have "w2 = w\<lparr>copies := copies w2\<rparr>"
    by (rule reconcileContainers_frame[OF assms(2)])
  then have "stored w2 = stored w \<and> patches w2 = patches w"
    by (cases w, cases w2) auto
  with assms show ?thesis
    by (simp add: Reconcile_unfold reconcilePodTemplate_def)
qed

lemma Patch_events: "events (snd (Patch w k obj before0)) = events w"
  by (simp add: Patch_def Let_def split: option.splits)

section \<open>Failure aborts the attempt\<close>

text \<open>
  C1. Let the containers before \<open>x\<close> be processed without error, and let \<open>x\<close> fail: its
  image does not parse, or its transfer fails. Then the loop stops at \<open>x\<close> with the error:
  \<open>x\<close> and the containers after it are as they were, and the copies made are those of the
  containers before \<open>x\<close>, plus the failed one of \<open>x\<close> itself in the transfer case, so no
  later container is processed or transferred. The attempt returns that error, issues no
  patch and leaves the stored objects as they were: the images rewritten in memory (in
  \<open>pre'\<close>) are not persisted.
\<close>

theorem abort_on_failure:
  assumes rd: "reader w (k, req) = Inr obj"
      and cs: "Spec_Containers (Spec_Template obj) = pre @ x # post"
      and pre: "reconcileContainers chk c w pre = (None, pre', w1)"
  shows "(ParseReference chk (Image x) = Inl perr \<longrightarrow>
            reconcileContainers chk c w (pre @ x # post) =
              (Some (FailedParsingImage (Image x) perr), pre' @ x # post, w1) \<and>
            (\<exists>w'. Reconcile k chk c w req = (Some (FailedParsingImage (Image x) perr), w') \<and>
                   stored w' = stored w \<and> patches w' = patches w \<and> copies w' = copies w1)) \<and>
         (ParseReference chk (Image x) = Inr src \<and>
          Registry (Reference_Context src) \<noteq> BackupRegistry c \<and>
          toDestinationImage chk src (BackupRegistry c) = Inr dst \<and>
          \<not> transfer w1 (copies w1) (Reference_Name src) (Tag_Name dst) \<longrightarrow>
            reconcileContainers chk c w (pre @ x # post) =
              (Some (ErrorCopyingImage (Reference_Name src) (Tag_Name dst)), pre' @ x # post,
               w1\<lparr>copies := copies w1 @ [(Reference_Name src, Tag_Name dst)]\<rparr>) \<and>
            (\<exists>w'. Reconcile k chk c w req =
                     (Some (ErrorCopyingImage (Reference_Name src) (Tag_Name dst)), w') \<and>
                   stored w' = stored w \<and> patches w' = patches w \<and>
                   copies w' = copies w1 @ [(Reference_Name src, Tag_Name dst)]))"
proof (intro conjI impI)
  assume p: "ParseReference chk (Image x) = Inl perr"
  show l: "reconcileContainers chk c w (pre @ x # post) =
          (Some (FailedParsingImage (Image x) perr), pre' @ x # post, w1)"
    by (simp only: reconcileContainers_append[OF pre] reconcileContainers_parse_fails[OF p] prod.case)
  show "\<exists>w'. Reconcile k chk c w req = (Some (FailedParsingImage (Image x) perr), w') \<and>
          stored w' = stored w \<and> patches w' = patches w \<and> copies w' = copies w1"
    using Reconcile_rewrite_error[OF rd l[folded cs]] .
next
  assume a: "ParseReference chk (Image x) = Inr src \<and>
          Registry (Reference_Context src) \<noteq> BackupRegistry c \<and>
          toDestinationImage chk src (BackupRegistry c) = Inr dst \<and>
          \<not> transfer w1 (copies w1) (Reference_Name src) (Tag_Name dst)"
  have f: "reconcileContainers chk c w1 (x # post) =
       (Some (ErrorCopyingImage (Reference_Name src) (Tag_Name dst)), x # post,
        w1\<lparr>copies := copies w1 @ [(Reference_Name src, Tag_Name dst)]\<rparr>)"
    using a by (intro reconcileContainers_transfer_fails) simp_all
  show l: "reconcileContainers chk c w (pre @ x # post) =
              (Some (ErrorCopyingImage (Reference_Name src) (Tag_Name dst)), pre' @ x # post,
               w1\<lparr>copies := copies w1 @ [(Reference_Name src, Tag_Name dst)]\<rparr>)"
    by (simp only: reconcileContainers_append[OF pre] f prod.case)
  show "\<exists>w'. Reconcile k chk c w req =
                     (Some (ErrorCopyingImage (Reference_Name src) (Tag_Name dst)), w') \<and>
                   stored w' = stored w \<and> patches w' = patches w \<and>
                   copies w' = copies w1 @ [(Reference_Name src, Tag_Name dst)]"
    using Reconcile_rewrite_error[OF rd l[folded cs]] by simp
qed

theorem abort_on_failure_witness:
  "\<exists>w'. Reconcile Deployment hostPort controller0 world0 (''default'', ''web'') =
          (Some (ErrorCopyingImage ''index.docker.io/library/busybox:1.36''
                   ''10.96.0.11:5001/index_docker_io/library/busybox:1.36''), w') \<and>
        stored w' = stored world0 \<and> patches w' = [] \<and>
        copies w' =
          [(''index.docker.io/library/nginx:latest'',
            ''10.96.0.11:5001/index_docker_io/library/nginx:latest''),
           (''index.docker.io/library/busybox:1.36'',
            ''10.96.0.11:5001/index_docker_io/library/busybox:1.36'')]"
proof -
  let ?a = "\<lparr>Name = ''a'', Image = ''nginx''\<rparr>"
  let ?b = "\<lparr>Name = ''b'', Image = ''busybox:1.36''\<rparr>"
  let ?c = "\<lparr>Name = ''c'', Image = ''redis''\<rparr>"
  let ?src = "TagReference \<lparr>tag_Repository = \<lparr>Registry = \<lparr>registry = ''index.docker.io''\<rparr>,
       repository = ''busybox''\<rparr>, tag = ''1.36'', tag_original = ''busybox:1.36''\<rparr>"
  let ?dst = "\<lparr>tag_Repository = \<lparr>Registry = \<lparr>registry = ''10.96.0.11:5001''\<rparr>,
       repository = ''index_docker_io/library/busybox''\<rparr>, tag = ''1.36'',
       tag_original = ''10.96.0.11:5001/index_docker_io/library/busybox:1.36''\<rparr>"
  obtain e1 p1 w1 where p: "reconcileContainers hostPort controller0 world0 [?a] = (e1, p1, w1)"
    by (cases "reconcileContainers hostPort controller0 world0 [?a]") auto
  have "fst (reconcileContainers hostPort controller0 world0 [?a]) = None"
    by code_simp
  with p have pre: "reconcileContainers hostPort controller0 world0 [?a] = (None, p1, w1)"
    by simp
  have "copies (snd (snd (reconcileContainers hostPort controller0 world0 [?a]))) =
      [(''index.docker.io/library/nginx:latest'',
        ''10.96.0.11:5001/index_docker_io/library/nginx:latest'')]"
    by code_simp
  with p have c1: "copies w1 = [(''index.docker.io/library/nginx:latest'',
        ''10.96.0.11:5001/index_docker_io/library/nginx:latest'')]"
    by simp
  have "w1 = world0\<lparr>copies := copies w1\<rparr>"
    by (rule reconcileContainers_frame[OF pre])
  then have t1: "transfer w1 = transfer world0"
    by (cases w1) (auto simp: world0_def)
  have rd: "reader world0 (Deployment, ''default'', ''web'') = Inr deployment0"
    by (simp add: world0_def)
  have cs: "Spec_Containers (Spec_Template deployment0) = [?a] @ ?b # [?c]"
    by (simp add: deployment0_def)
  have s: "ParseReference hostPort (Image ?b) = Inr ?src"
    by code_simp
  have n: "Registry (Reference_Context ?src) \<noteq> BackupRegistry controller0"
    by code_simp
  have d: "toDestinationImage hostPort ?src (BackupRegistry controller0) = Inr ?dst"
    by code_simp
  have sn: "Reference_Name ?src = ''index.docker.io/library/busybox:1.36''"
    by code_simp
  have dn: "Tag_Name ?dst = ''10.96.0.11:5001/index_docker_io/library/busybox:1.36''"
    by code_simp
  have tf: "\<not> transfer w1 (copies w1) (Reference_Name ?src) (Tag_Name ?dst)"
    by (simp only: t1 sn) (simp add: world0_def)
  from abort_on_failure[OF rd cs pre, of ErrBadName ?src ?dst] s n d tf
  have "\<exists>w'. Reconcile Deployment hostPort controller0 world0 (''default'', ''web'') =
          (Some (ErrorCopyingImage (Reference_Name ?src) (Tag_Name ?dst)), w') \<and>
        stored w' = stored world0 \<and> patches w' = patches world0 \<and>
        copies w' = copies w1 @ [(Reference_Name ?src, Tag_Name ?dst)]"
    by blast
  then show ?thesis
    by (simp only: sn dn c1) (simp add: world0_def)
qed

section \<open>Containers that reference the backup registry are skipped\<close>

text \<open>
  C3. A container is skipped exactly when its image parses to a reference whose registry
  authority is that of the backup registry (the two registries are compared as values,
  not as prefixes of the image string). For a skipped container \<open>x\<close> the loop continues
  with the containers after it in the world it found, so no transfer is made for \<open>x\<close>, and
  \<open>x\<close> is left as it is. When every container of a workload is skipped, the attempt
  returns no error and leaves the world as it is: no transfer, no patch.
\<close>

theorem skip_already_mirrored:
  "(alreadyMirrored chk c x \<longleftrightarrow>
      (\<exists>srcImg. ParseReference chk (Image x) = Inr srcImg \<and>
         RegistryStr (Registry (Reference_Context srcImg)) = RegistryStr (BackupRegistry c))) \<and>
   (alreadyMirrored chk c x \<and> reconcileContainers chk c w pre = (None, pre', w1) \<longrightarrow>
      reconcileContainers chk c w (pre @ x # post) =
        (case reconcileContainers chk c w1 post of (e, post', w') \<Rightarrow> (e, pre' @ x # post', w'))) \<and>
   (list_all (alreadyMirrored chk c) (Spec_Containers (Spec_Template obj)) \<and>
    reader w (k, req) = Inr obj \<longrightarrow>
      Reconcile k chk c w req = (None, w))"
proof (intro conjI impI)
  show "alreadyMirrored chk c x \<longleftrightarrow>
      (\<exists>srcImg. ParseReference chk (Image x) = Inr srcImg \<and>
         RegistryStr (Registry (Reference_Context srcImg)) = RegistryStr (BackupRegistry c))"
    by (auto simp: alreadyMirrored_def RegistryStr_def split: sum.splits)
next
  assume a: "alreadyMirrored chk c x \<and> reconcileContainers chk c w pre = (None, pre', w1)"
  then have pre: "reconcileContainers chk c w pre = (None, pre', w1)" and m: "alreadyMirrored chk c x"
    by simp_all
  show "reconcileContainers chk c w (pre @ x # post) =
        (case reconcileContainers chk c w1 post of (e, post', w') \<Rightarrow> (e, pre' @ x # post', w'))"
    by (simp only: reconcileContainers_append[OF pre] reconcileContainers_skip[OF m])
       (simp split: prod.splits)
next
  assume a: "list_all (alreadyMirrored chk c) (Spec_Containers (Spec_Template obj)) \<and>
    reader w (k, req) = Inr obj"
  then have "reconcileContainers chk c w (Spec_Containers (Spec_Template obj)) =
      (None, Spec_Containers (Spec_Template obj), w)"
    by (simp add: reconcileContainers_all_mirrored)
  with a show "Reconcile k chk c w req = (None, w)"
    by (simp add: Reconcile_unfold reconcilePodTemplate_def)
qed

theorem skip_already_mirrored_witness:
  "alreadyMirrored hostPort controller0
     \<lparr>Name = ''a'', Image = ''10.96.0.11:5001/index_docker_io/library/nginx:latest''\<rparr> \<and>
   alreadyMirrored hostPort \<lparr>BackupRegistry = \<lparr>registry = ''index.docker.io''\<rparr>, PodNamespace = []\<rparr>
     \<lparr>Name = ''a'', Image = ''nginx''\<rparr> \<and>
   list_all (alreadyMirrored hostPort controller0) (Spec_Containers (Spec_Template mirrored0)) \<and>
   Reconcile DaemonSet hostPort controller0 world1 (''default'', ''cache'') = (None, world1)"
proof -
  have m: "list_all (alreadyMirrored hostPort controller0) (Spec_Containers (Spec_Template mirrored0))"
    by code_simp
  have r: "reader world1 (DaemonSet, ''default'', ''cache'') = Inr mirrored0"
    by (simp add: world1_def)
  have "Reconcile DaemonSet hostPort controller0 world1 (''default'', ''cache'') = (None, world1)"
    using skip_already_mirrored[where chk = hostPort and c = controller0 and obj = mirrored0
        and w = world1 and k = DaemonSet and req = "(''default'', ''cache'')"] m r
    by blast
  moreover have "alreadyMirrored hostPort controller0
     \<lparr>Name = ''a'', Image = ''10.96.0.11:5001/index_docker_io/library/nginx:latest''\<rparr>"
    by code_simp
  moreover have "alreadyMirrored hostPort \<lparr>BackupRegistry = \<lparr>registry = ''index.docker.io''\<rparr>, PodNamespace = []\<rparr>
     \<lparr>Name = ''a'', Image = ''nginx''\<rparr>"
    by code_simp
  ultimately show ?thesis using m by simp
qed

section \<open>A workload that is not found\<close>

text \<open>
  C6. When \<open>c.Get\<close> reports the workload as not found, the attempt returns no error and
  the world is unchanged: no transfer, no patch, no stored object written, no event.
\<close>

theorem not_found_is_noop:
  "reader w (k, req) = Inl IsNotFound \<Longrightarrow> Reconcile k chk c w req = (None, w)"
  by (simp add: Reconcile_unfold)

theorem not_found_is_noop_witness:
  "reader world1 (Deployment, ''default'', ''web'') = Inl IsNotFound \<and>
   Reconcile Deployment hostPort controller0 world1 (''default'', ''web'') = (None, world1)"
  using not_found_is_noop[of world1 Deployment "(''default'', ''web'')" hostPort controller0]
  by (simp add: world1_def)

section \<open>Warning events\<close>

text \<open>
  C7. The events of one attempt: exactly one event, of type Warning and about the
  workload, when the workload was read and the rewrite of its pod template returned an
  error (an image that does not parse, a destination that cannot be built, a transfer
  that fails); no event otherwise, that is when the workload is not found or cannot be
  read, when nothing changed, when the patch is applied and when the patch is refused
  with a conflict.
\<close>

theorem warning_iff_rewrite_fails:
  "events (snd (Reconcile k chk c w req)) =
     events w @
     (case reader w (k, req) of
        Inl err \<Rightarrow> []
      | Inr obj \<Rightarrow>
          (case fst (reconcilePodTemplate chk c w (Spec_Template obj)) of
             None \<Rightarrow> []
           | Some err \<Rightarrow>
               [\<lparr>involvedObject = (k, ObjectMeta_Namespace obj, ObjectMeta_Name obj),
                 eventtype = ''Warning'', reason = ''FailedCopyingImages'', message = err\<rparr>]))"
proof (cases "reader w (k, req)")
  case (Inl err)
  then show ?thesis by (simp add: Reconcile_unfold)
next
  case (Inr obj)
  obtain e cs' w1 where r: "reconcileContainers chk c w (Spec_Containers (Spec_Template obj)) = (e, cs', w1)"
    by (cases "reconcileContainers chk c w (Spec_Containers (Spec_Template obj))") auto
  from reconcileContainers_frame[OF r] have ev: "events w1 = events w"
    by (cases w, cases w1) auto
  show ?thesis
  proof (cases e)
    case None
    with Inr r ev show ?thesis
      by (simp add: Reconcile_unfold reconcilePodTemplate_def Patch_events)
  next
    case (Some err)
    with Inr r ev show ?thesis
      by (simp add: Reconcile_unfold reconcilePodTemplate_def warningEvent_def)
  qed
qed

section \<open>The namespace filter\<close>

text \<open>
  C8. After \<open>SetupWithManager\<close> the predicate accepts a workload exactly when its
  namespace is none of \<open>kube-system\<close>, \<open>local-path-storage\<close> and \<open>registry\<close>, nor
  the controller's own namespace when that is set (non-empty). The predicate is a function
  of the ignored set and the object alone.
\<close>

theorem namespace_filter:
  "namespacePredicate (SetupWithManager c ignoredNamespaces) obj \<longleftrightarrow>
     ObjectMeta_Namespace obj \<notin>
       {''kube-system'', ''local-path-storage'', ''registry''} \<union>
       (if PodNamespace c = [] then {} else {PodNamespace c})"
  by (auto simp: namespacePredicate_def SetupWithManager_def ignoredNamespaces_def
        NamespaceSystem_def RegistryNamespace_def)

section \<open>What the rewrite of a pod template changes\<close>

text \<open>
  C9. Whatever \<open>reconcilePodTemplate\<close> returns, the containers it leaves differ from the
  ones it found in their \<open>Image\<close> fields only: as many containers, in the same order,
  with the same names and the same other fields. The other fields of the template are
  unchanged. Of the world it changes the log of copies only: the stored objects, the
  patches and the events are as before, so the rewrite persists nothing.
\<close>

theorem rewrite_frame:
  assumes "reconcilePodTemplate chk c w template = (err, template', w')"
  shows "map (\<lambda>x. x\<lparr>Image := []\<rparr>) (Spec_Containers template') =
           map (\<lambda>x. x\<lparr>Image := []\<rparr>) (Spec_Containers template) \<and>
         length (Spec_Containers template') = length (Spec_Containers template) \<and>
         map Name (Spec_Containers template') = map Name (Spec_Containers template) \<and>
         template'\<lparr>Spec_Containers := Spec_Containers template\<rparr> = template \<and>
         stored w' = stored w \<and> patches w' = patches w \<and> events w' = events w \<and>
         w' = w\<lparr>copies := copies w'\<rparr>"
proof -
  obtain cs' where r: "reconcileContainers chk c w (Spec_Containers template) = (err, cs', w')"
    and t: "template' = template\<lparr>Spec_Containers := cs'\<rparr>"
    using assms by (auto simp: reconcilePodTemplate_def split: prod.splits)
  have m: "map (\<lambda>x. x\<lparr>Image := []\<rparr>) cs' = map (\<lambda>x. x\<lparr>Image := []\<rparr>) (Spec_Containers template)"
    by (rule reconcileContainers_images_only[OF r])
  have l: "length cs' = length (Spec_Containers template)"
    using arg_cong[OF m, of length] by simp
  have "map (Name \<circ> (\<lambda>x. x\<lparr>Image := []\<rparr>)) cs' = map (Name \<circ> (\<lambda>x. x\<lparr>Image := []\<rparr>)) (Spec_Containers template)"
    using arg_cong[OF m, of "map Name"] by (simp only: map_map)
  then have n: "map Name cs' = map Name (Spec_Containers template)"
    by (simp add: comp_def)
  have f: "w' = w\<lparr>copies := copies w'\<rparr>"
    by (rule reconcileContainers_frame[OF r])
  have s: "stored w' = stored w \<and> patches w' = patches w \<and> events w' = events w"
    using f by (cases w, cases w') auto
  from t m l n f s show ?thesis by simp
qed

theorem rewrite_frame_witness:
  "fst (reconcilePodTemplate hostPort controller0 world0 (Spec_Template deployment0)) =
     Some (ErrorCopyingImage ''index.docker.io/library/busybox:1.36''
             ''10.96.0.11:5001/index_docker_io/library/busybox:1.36'') \<and>
   map Image (Spec_Containers (fst (snd (reconcilePodTemplate hostPort controller0 world0
     (Spec_Template deployment0))))) =
     [''10.96.0.11:5001/index_docker_io/library/nginx:latest'', ''busybox:1.36'', ''redis''] \<and>
   map Name (Spec_Containers (fst (snd (reconcilePodTemplate hostPort controller0 world0
     (Spec_Template deployment0))))) = [''a'', ''b'', ''c''] \<and>
   stored (snd (snd (reconcilePodTemplate hostPort controller0 world0 (Spec_Template deployment0)))) =
     stored world0 \<and>
   patches (snd (snd (reconcilePodTemplate hostPort controller0 world0 (Spec_Template deployment0)))) = []"
proof -
  obtain e t w where r:
    "reconcilePodTemplate hostPort controller0 world0 (Spec_Template deployment0) = (e, t, w)"
    by (cases "reconcilePodTemplate hostPort controller0 world0 (Spec_Template deployment0)") auto
  have f: "map Name (Spec_Containers t) = map Name (Spec_Containers (Spec_Template deployment0)) \<and>
     stored w = stored world0 \<and> patches w = patches world0"
    using rewrite_frame[OF r] by simp
  have e: "fst (reconcilePodTemplate hostPort controller0 world0 (Spec_Template deployment0)) =
     Some (ErrorCopyingImage ''index.docker.io/library/busybox:1.36''
             ''10.96.0.11:5001/index_docker_io/library/busybox:1.36'')"
    by code_simp
  have i: "map Image (Spec_Containers (fst (snd (reconcilePodTemplate hostPort controller0 world0
     (Spec_Template deployment0))))) =
     [''10.96.0.11:5001/index_docker_io/library/nginx:latest'', ''busybox:1.36'', ''redis'']"
    by code_simp
  have n: "map Name (Spec_Containers (Spec_Template deployment0)) = [''a'', ''b'', ''c'']"
    by (simp add: deployment0_def)
  have p: "patches world0 = []"
    by (simp add: world0_def)
  show ?thesis using f e i n p by (simp add: r)
qed

section \<open>Reconciling again\<close>

lemma rewritten_is_mirrored:
  assumes ac: "authorityCheck chk"
      and dst: "NewRegistry chk b = Inr (BackupRegistry c)"
      and ex: "explicitAuthority (RegistryStr (BackupRegistry c))"
      and wf: "wfReference chk srcImg"
      and t: "toDestinationImage chk srcImg (BackupRegistry c) = Inr dstImg"
  shows "Registry (tag_Repository dstImg) = BackupRegistry c \<and>
         ParseReference chk (Tag_Name dstImg) = Inr (TagReference dstImg)"
proof -
  have ne: "registry (BackupRegistry c) \<noteq> []"
    using NewRegistry_valid[OF ac dst] by simp
  from t have e: "dstImg = \<lparr>tag_Repository = \<lparr>Registry = BackupRegistry c, repository = newRepository srcImg\<rparr>,
                      tag = newTag srcImg,
                      tag_original =
                        RegistryStr (BackupRegistry c) @ ''/'' @ newRepository srcImg @ '':'' @ newTag srcImg\<rparr>"
    by (simp add: toDestinationImage_explicit[OF ac dst ex wf] split: if_splits)
  have n: "Tag_Name dstImg =
      RegistryStr (BackupRegistry c) @ ''/'' @ newRepository srcImg @ '':'' @ newTag srcImg"
    by (subst e) (rule Tag_Name_destination[OF ne])
  have "NewTag chk (Tag_Name dstImg) = Inr dstImg"
    using t by (simp add: n toDestinationImage_def)
  then have "ParseReference chk (Tag_Name dstImg) = Inr (TagReference dstImg)"
    by (simp add: ParseReference_def)
  moreover have "Registry (tag_Repository dstImg) = BackupRegistry c"
    by (subst e) simp
  ultimately show ?thesis by simp
qed

lemma reconcileContainers_result_mirrored:
  assumes ac: "authorityCheck chk"
      and dst: "NewRegistry chk b = Inr (BackupRegistry c)"
      and ex: "explicitAuthority (RegistryStr (BackupRegistry c))"
  shows "reconcileContainers chk c w cs = (None, cs', w') \<Longrightarrow> list_all (alreadyMirrored chk c) cs'"
proof (induction cs arbitrary: w cs' w')
  case Nil
  then show ?case by simp
next
  case (Cons x xs)
  show ?case
  proof (cases "ParseReference chk (Image x)")
    case (Inl err)
    with Cons.prems show ?thesis by simp
  next
    case (Inr src)
    have wf: "wfReference chk src" using Inr by (rule ParseReference_wf)
    show ?thesis
    proof (cases "Registry (Reference_Context src) = BackupRegistry c")
      case True
      obtain e1 r1 w1 where r: "reconcileContainers chk c w xs = (e1, r1, w1)"
        by (cases "reconcileContainers chk c w xs") auto
      from Cons.prems Inr True r have "e1 = None" "cs' = x # r1" by simp_all
      moreover have "alreadyMirrored chk c x" using Inr True by (simp add: alreadyMirrored_def)
      ultimately show ?thesis using Cons.IH[of w r1 w1] r by simp
    next
      case False
      show ?thesis
      proof (cases "toDestinationImage chk src (BackupRegistry c)")
        case (Inl err)
        with Cons.prems \<open>ParseReference chk (Image x) = Inr src\<close> False show ?thesis by simp
      next
        case (Inr dstImg)
        let ?w1 = "w\<lparr>copies := copies w @ [(Reference_Name src, Tag_Name dstImg)]\<rparr>"
        obtain e1 r1 w1 where r: "reconcileContainers chk c ?w1 xs = (e1, r1, w1)"
          by (cases "reconcileContainers chk c ?w1 xs") auto
        from Cons.prems \<open>ParseReference chk (Image x) = Inr src\<close> False Inr r
        have "e1 = None" "cs' = x\<lparr>Image := Tag_Name dstImg\<rparr> # r1"
          by (auto simp: Let_def split: if_splits)
        moreover have "alreadyMirrored chk c (x\<lparr>Image := Tag_Name dstImg\<rparr>)"
          using rewritten_is_mirrored[OF ac dst ex wf Inr] by (simp add: alreadyMirrored_def)
        ultimately show ?thesis using Cons.IH[of ?w1 r1 w1] r by simp
      qed
    qed
  qed
qed


text \<open>
  Convergence in a backup registry whose authority contains a \<open>.\<close> or a \<open>:\<close>. Let
  the authority check be as above and the backup registry be built by \<open>NewRegistry\<close>
  with such an authority. Then every reference that \<open>toDestinationImage\<close> returns for a
  parsed source is a tag in the backup registry, and its serialised form parses back to
  that very tag, so a container rewritten to it is skipped from then on. Hence after a
  rewrite of a pod template that returned no error every container is skipped: rewriting
  the resulting template again returns it unchanged and makes no transfer, and an attempt
  that reads a workload with that template returns no error and leaves the world as it
  is.
\<close>

theorem destination_converges:
  assumes ac: "authorityCheck chk"
      and dst: "NewRegistry chk b = Inr (BackupRegistry c)"
      and ex: "explicitAuthority (RegistryStr (BackupRegistry c))"
  shows "(ParseReference chk s = Inr srcImg \<and>
          toDestinationImage chk srcImg (BackupRegistry c) = Inr dstImg \<longrightarrow>
            Registry (tag_Repository dstImg) = BackupRegistry c \<and>
            ParseReference chk (Tag_Name dstImg) = Inr (TagReference dstImg) \<and>
            alreadyMirrored chk c (container\<lparr>Image := Tag_Name dstImg\<rparr>)) \<and>
         (reconcilePodTemplate chk c w template = (None, template', w') \<longrightarrow>
            list_all (alreadyMirrored chk c) (Spec_Containers template') \<and>
            reconcilePodTemplate chk c w2 template' = (None, template', w2) \<and>
            (reader w2 (k, req) = Inr obj \<and> Spec_Template obj = template' \<longrightarrow>
               Reconcile k chk c w2 req = (None, w2)))"
proof (intro conjI impI)
  assume a: "ParseReference chk s = Inr srcImg \<and>
          toDestinationImage chk srcImg (BackupRegistry c) = Inr dstImg"
  then have wf: "wfReference chk srcImg" and t: "toDestinationImage chk srcImg (BackupRegistry c) = Inr dstImg"
    using ParseReference_wf by blast+
  note m = rewritten_is_mirrored[OF ac dst ex wf t]
  from m show "Registry (tag_Repository dstImg) = BackupRegistry c" by simp
  from m show "ParseReference chk (Tag_Name dstImg) = Inr (TagReference dstImg)" by simp
  from m show "alreadyMirrored chk c (container\<lparr>Image := Tag_Name dstImg\<rparr>)"
    by (simp add: alreadyMirrored_def)
next
  assume r: "reconcilePodTemplate chk c w template = (None, template', w')"
  then obtain cs' where rc: "reconcileContainers chk c w (Spec_Containers template) = (None, cs', w')"
    and t': "template' = template\<lparr>Spec_Containers := cs'\<rparr>"
    by (auto simp: reconcilePodTemplate_def split: prod.splits)
  have "list_all (alreadyMirrored chk c) cs'"
    by (rule reconcileContainers_result_mirrored[OF ac dst ex rc])
  then show m: "list_all (alreadyMirrored chk c) (Spec_Containers template')"
    by (simp add: t')
  then have "reconcileContainers chk c w2 (Spec_Containers template') = (None, Spec_Containers template', w2)"
    by (rule reconcileContainers_all_mirrored)
  then show n: "reconcilePodTemplate chk c w2 template' = (None, template', w2)"
    by (simp add: reconcilePodTemplate_def)
  assume "reader w2 (k, req) = Inr obj \<and> Spec_Template obj = template'"
  with n show "Reconcile k chk c w2 req = (None, w2)"
    by (simp add: Reconcile_unfold)
qed

theorem destination_converges_witness:
  "authorityCheck hostPort \<and>
   NewRegistry hostPort ''10.96.0.11:5001'' = Inr (BackupRegistry controller0) \<and>
   explicitAuthority (RegistryStr (BackupRegistry controller0)) \<and>
   ParseReference hostPort ''nginx'' = Inr nginxRef \<and>
   toDestinationImage hostPort nginxRef (BackupRegistry controller0) = Inr nginxMirror \<and>
   ParseReference hostPort (Tag_Name nginxMirror) = Inr (TagReference nginxMirror) \<and>
   alreadyMirrored hostPort controller0 \<lparr>Name = ''a'', Image = Tag_Name nginxMirror\<rparr> \<and>
   fst (reconcilePodTemplate hostPort controller0 world1 (Spec_Template deployment0)) = None \<and>
   fst (snd (reconcilePodTemplate hostPort controller0 world1 (Spec_Template deployment0))) = template1 \<and>
   reconcilePodTemplate hostPort controller0 world2 template1 = (None, template1, world2) \<and>
   Reconcile Deployment hostPort controller0 world2 (''default'', ''web'') = (None, world2)"
proof -
  let ?obj = "deployment0\<lparr>ObjectMeta_ResourceVersion := 8, Spec_Template := template1\<rparr>"
  have r: "NewRegistry hostPort ''10.96.0.11:5001'' = Inr (BackupRegistry controller0)" by code_simp
  have e: "explicitAuthority (RegistryStr (BackupRegistry controller0))" by code_simp
  have p: "ParseReference hostPort ''nginx'' = Inr nginxRef" by code_simp
  have t: "toDestinationImage hostPort nginxRef (BackupRegistry controller0) = Inr nginxMirror"
    by code_simp
  have f1: "fst (reconcilePodTemplate hostPort controller0 world1 (Spec_Template deployment0)) = None"
    by code_simp
  have f2: "fst (snd (reconcilePodTemplate hostPort controller0 world1 (Spec_Template deployment0))) =
      template1"
    by code_simp
  obtain w' where rp:
    "reconcilePodTemplate hostPort controller0 world1 (Spec_Template deployment0) = (None, template1, w')"
    using f1 f2
    by (cases "reconcilePodTemplate hostPort controller0 world1 (Spec_Template deployment0)") auto
  have rd: "reader world2 (Deployment, ''default'', ''web'') = Inr ?obj \<and> Spec_Template ?obj = template1"
    by (simp add: world2_def)
  note th = destination_converges[OF authorityCheck_hostPort r e,
      of "''nginx''" nginxRef nginxMirror "\<lparr>Name = ''a'', Image = ''nginx''\<rparr>"
         world1 "Spec_Template deployment0" template1 w' world2 Deployment "(''default'', ''web'')" ?obj]
  have a: "ParseReference hostPort (Tag_Name nginxMirror) = Inr (TagReference nginxMirror)"
    and b: "alreadyMirrored hostPort controller0
              (\<lparr>Name = ''a'', Image = ''nginx''\<rparr>\<lparr>Image := Tag_Name nginxMirror\<rparr>)"
    using th p t by blast+
  have c: "reconcilePodTemplate hostPort controller0 world2 template1 = (None, template1, world2)"
    and d: "Reconcile Deployment hostPort controller0 world2 (''default'', ''web'') = (None, world2)"
    using th rp rd by blast+
  from b have b': "alreadyMirrored hostPort controller0 \<lparr>Name = ''a'', Image = Tag_Name nginxMirror\<rparr>"
    by simp
  show ?thesis
    by (intro conjI) (fact authorityCheck_hostPort r e p t a b' f1 f2 c d)+
qed


text \<open>
  C10. Every reference that \<open>toDestinationImage\<close> returns is to be a tag in the backup
  registry, so that a container whose rewrite was committed is skipped by every later
  attempt; so do the comments on \<open>toDestinationImage\<close> and \<open>reconcilePodTemplate\<close> say
  ("tags in our backup registry", "copies all images \<dots> to our backup registry if they
  don't reference the backup registry already"). The code departs from it for a backup
  registry whose authority has neither a \<open>.\<close> nor a \<open>:\<close>, by the same defect as in
  C2. For the backup registry \<open>localhost\<close> and a container with the image \<open>nginx\<close> the
  tag returned is in \<open>index.docker.io\<close>, not in the backup registry; the rewrite
  succeeds and leaves the image
  \<open>index.docker.io/localhost/index_docker_io/library/nginx:latest\<close>; that container is
  not skipped, and the next rewrite transfers it and rewrites its image once more.
\<close>

theorem rewritten_container_not_skipped:
  "NewRegistry hostPort ''localhost'' = Inr (BackupRegistry controllerL) \<and>
   ParseReference hostPort ''nginx'' = Inr nginxRef \<and>
   toDestinationImage hostPort nginxRef (BackupRegistry controllerL) = Inr localMirror \<and>
   Registry (tag_Repository localMirror) \<noteq> BackupRegistry controllerL \<and>
   Tag_Name localMirror = ''index.docker.io/localhost/index_docker_io/library/nginx:latest'' \<and>
   \<not> alreadyMirrored hostPort controllerL \<lparr>Name = ''a'', Image = Tag_Name localMirror\<rparr> \<and>
   fst (reconcileContainers hostPort controllerL world1 [\<lparr>Name = ''a'', Image = ''nginx''\<rparr>]) = None \<and>
   fst (snd (reconcileContainers hostPort controllerL world1 [\<lparr>Name = ''a'', Image = ''nginx''\<rparr>])) =
     [\<lparr>Name = ''a'', Image = Tag_Name localMirror\<rparr>] \<and>
   copies (snd (snd (reconcileContainers hostPort controllerL world1
     [\<lparr>Name = ''a'', Image = Tag_Name localMirror\<rparr>]))) =
     [(''index.docker.io/localhost/index_docker_io/library/nginx:latest'',
       ''index.docker.io/localhost/index_docker_io/localhost/index_docker_io/library/nginx:latest'')]"
  by code_simp


end
